theory Spec2Isabelle
  imports Complex_Main "HOL-Library.AList" "HOL-Library.Sublist" "HOL-Library.Log_Nat"
begin

section \<open>JavaScript numbers\<close>

text \<open>
  The datasource is TypeScript; its numbers are IEEE 754 doubles.  A number is \<open>NaN\<close>,
  an infinity, the negative zero, or \<open>Num r\<close> for the finite double of value \<open>r\<close>;
  \<open>Num 0\<close> is the positive zero.  Every operation computes the exact result and rounds
  it to the nearest double, a tie going to the even significand, as the hardware does.
\<close>

datatype number = Num real | NegZero | PosInfinity | NegInfinity | NaN

text \<open>Two to the power of an integer.\<close>

definition pow2 :: "int \<Rightarrow> real" where
  "pow2 e = (if 0 \<le> e then 2 ^ nat e else 1 / 2 ^ nat (- e))"

text \<open>The nearest integer, a tie going to the even one.\<close>

definition round_even :: "real \<Rightarrow> int" where
  "round_even t =
     (let n = \<lfloor>t\<rfloor>; r = t - of_int n
      in if r < 1 / 2 then n else if 1 / 2 < r then n + 1 else if even n then n else n + 1)"

text \<open>
  The binary exponent of a real other than zero: the \<open>e\<close> with
  \<open>2 ^ e \<le> \<bar>x\<bar> < 2 ^ (e + 1)\<close>, from the bit length of an integer.
\<close>

definition expo :: "real \<Rightarrow> int" where
  "expo x =
     (if 1 \<le> \<bar>x\<bar> then bitlen \<lfloor>\<bar>x\<bar>\<rfloor> - 1 else - bitlen (\<lceil>1 / \<bar>x\<bar>\<rceil> - 1))"

text \<open>
  Rounding to a significand of 53 bits; below \<open>2 ^ (- 1022)\<close> the doubles are the
  multiples of \<open>2 ^ (- 1074)\<close>.
\<close>

definition round_double :: "real \<Rightarrow> real" where
  "round_double x =
     (if x = 0 then 0
      else (let e = max (expo x - 52) (- 1074)
            in of_int (round_even (x / pow2 e)) * pow2 e))"

text \<open>
  The double for an exact result \<open>x\<close>: an infinity when the rounded value reaches
  \<open>2 ^ 1024\<close>, and a zero of the sign \<open>neg\<close> when it is zero.
\<close>

definition fl :: "bool \<Rightarrow> real \<Rightarrow> number" where
  "fl neg x =
     (let y = round_double x
      in if 2 ^ 1024 \<le> \<bar>y\<bar> then (if 0 < x then PosInfinity else NegInfinity)
         else if y = 0 then (if neg then NegZero else Num 0)
         else Num y)"

definition is_zero :: "number \<Rightarrow> bool" where
  "is_zero n = (n = Num 0 \<or> n = NegZero)"

definition is_infinite :: "number \<Rightarrow> bool" where
  "is_infinite n = (n = PosInfinity \<or> n = NegInfinity)"

text \<open>The sign bit, and the value of a finite number.\<close>

fun sign_bit :: "number \<Rightarrow> bool" where
  "sign_bit (Num r) = (r < 0)"
| "sign_bit NegZero = True"
| "sign_bit PosInfinity = False"
| "sign_bit NegInfinity = True"
| "sign_bit NaN = False"

fun val :: "number \<Rightarrow> real" where
  "val (Num r) = r"
| "val n = 0"

definition infinity :: "bool \<Rightarrow> number" where
  "infinity neg = (if neg then NegInfinity else PosInfinity)"

definition zero :: "bool \<Rightarrow> number" where
  "zero neg = (if neg then NegZero else Num 0)"

text \<open>\<open>a * b\<close>.\<close>

definition nmul :: "number \<Rightarrow> number \<Rightarrow> number" where
  "nmul a b =
     (if a = NaN \<or> b = NaN then NaN
      else if (is_infinite a \<and> is_zero b) \<or> (is_zero a \<and> is_infinite b) then NaN
      else if is_infinite a \<or> is_infinite b then infinity (sign_bit a \<noteq> sign_bit b)
      else fl (sign_bit a \<noteq> sign_bit b) (val a * val b))"

text \<open>\<open>a / b\<close>.\<close>

definition ndiv :: "number \<Rightarrow> number \<Rightarrow> number" where
  "ndiv a b =
     (if a = NaN \<or> b = NaN then NaN
      else if (is_infinite a \<and> is_infinite b) \<or> (is_zero a \<and> is_zero b) then NaN
      else if is_infinite a \<or> is_zero b then infinity (sign_bit a \<noteq> sign_bit b)
      else if is_infinite b then zero (sign_bit a \<noteq> sign_bit b)
      else fl (sign_bit a \<noteq> sign_bit b) (val a / val b))"

text \<open>
  \<open>a - b\<close>.  A difference of equal finite numbers is the positive zero, except that
  the negative zero minus the positive zero is the negative zero.
\<close>

definition nsub :: "number \<Rightarrow> number \<Rightarrow> number" where
  "nsub a b =
     (if a = NaN \<or> b = NaN then NaN
      else if is_infinite a then (if b = a then NaN else a)
      else if is_infinite b then infinity (\<not> sign_bit b)
      else if val a = val b then zero (a = NegZero \<and> b = Num 0)
      else fl (val a < val b) (val a - val b))"

text \<open>\<open>Math.floor\<close>, \<open>Math.ceil\<close> and \<open>Math.round\<close>; they are exact.\<close>

fun floor_number :: "number \<Rightarrow> number" where
  "floor_number (Num r) = Num (of_int \<lfloor>r\<rfloor>)"
| "floor_number n = n"

fun ceil_number :: "number \<Rightarrow> number" where
  "ceil_number (Num r) = (if \<lceil>r\<rceil> = 0 \<and> r < 0 then NegZero else Num (of_int \<lceil>r\<rceil>))"
| "ceil_number n = n"

fun round_number :: "number \<Rightarrow> number" where
  "round_number (Num r) =
     (if \<lfloor>r + 1 / 2\<rfloor> = 0 \<and> r < 0 then NegZero else Num (of_int \<lfloor>r + 1 / 2\<rfloor>))"
| "round_number n = n"

text \<open>
  The comparisons \<open>a < b\<close>, \<open>a > b\<close>, \<open>a <= b\<close> and \<open>a === b\<close>: false when an
  operand is \<open>NaN\<close>, and the two zeros are equal.
\<close>

definition nlt :: "number \<Rightarrow> number \<Rightarrow> bool" where
  "nlt a b =
     (a \<noteq> NaN \<and> b \<noteq> NaN \<and>
      ((a = NegInfinity \<and> b \<noteq> NegInfinity) \<or> (b = PosInfinity \<and> a \<noteq> PosInfinity) \<or>
       (\<not> is_infinite a \<and> \<not> is_infinite b \<and> val a < val b)))"

definition ngt :: "number \<Rightarrow> number \<Rightarrow> bool" where
  "ngt a b = nlt b a"

definition nle :: "number \<Rightarrow> number \<Rightarrow> bool" where
  "nle a b = (a \<noteq> NaN \<and> b \<noteq> NaN \<and> \<not> nlt b a)"

definition nseq :: "number \<Rightarrow> number \<Rightarrow> bool" where
  "nseq a b = (a \<noteq> NaN \<and> b \<noteq> NaN \<and> \<not> nlt a b \<and> \<not> nlt b a)"

text \<open>
  \<open>Math.max\<close> of two numbers: \<open>NaN\<close> when one of them is, and the positive zero is
  the larger zero.  \<open>Math.max(a, b, c)\<close> is the maximum of \<open>Math.max(a, b)\<close> and
  \<open>c\<close>.
\<close>

definition nmax :: "number \<Rightarrow> number \<Rightarrow> number" where
  "nmax a b =
     (if a = NaN \<or> b = NaN then NaN
      else if nlt a b then b
      else if nlt b a then a
      else if a = NegZero then b else a)"

section \<open>JavaScript values\<close>

text \<open>
  Untyped data (errors of the HTTP layer, responses, header values) is a JSON-like value.
  An object is the list of its own properties, in the order in which they are enumerated.
\<close>

datatype jsvalue =
    JUndefined
  | JNull
  | JBool bool
  | JNumber number
  | JString string
  | JArray "jsvalue list"
  | JObject "(string \<times> jsvalue) list"

text \<open>JavaScript truthiness, as \<open>if (v)\<close> and \<open>v || d\<close> test it.\<close>

fun truthy :: "jsvalue \<Rightarrow> bool" where
  "truthy JUndefined = False"
| "truthy JNull = False"
| "truthy (JBool b) = b"
| "truthy (JNumber n) = (n \<noteq> NaN \<and> \<not> is_zero n)"
| "truthy (JString s) = (s \<noteq> [])"
| "truthy (JArray xs) = True"
| "truthy (JObject kvs) = True"

text \<open>
  Reading a property \<open>v.k\<close> of a value that is neither \<open>undefined\<close> nor \<open>null\<close>: an
  object gives the property's value, or \<open>undefined\<close> when it has none; the primitives
  have none of the properties the datasource reads.  Reading a property of \<open>undefined\<close>
  or \<open>null\<close> throws; \<open>nullish\<close> is tested before every such read.
\<close>

fun getprop :: "jsvalue \<Rightarrow> string \<Rightarrow> jsvalue" where
  "getprop (JObject kvs) k = (case map_of kvs k of Some v \<Rightarrow> v | None \<Rightarrow> JUndefined)"
| "getprop v k = JUndefined"

definition nullish :: "jsvalue \<Rightarrow> bool" where
  "nullish v = (v = JUndefined \<or> v = JNull)"

section \<open>Query window alignment and interval adjustment\<close>

record alignedRange =
  r_end :: number
  r_start :: number

text \<open>\<open>alignRange(start, end, step)\<close>: both bounds are rounded down with \<open>Math.floor\<close>.\<close>

definition alignRange :: "number \<Rightarrow> number \<Rightarrow> number \<Rightarrow> alignedRange" where
  "alignRange start end' step =
     (let alignedEnd = nmul (floor_number (ndiv end' step)) step;
          alignedStart = nmul (floor_number (ndiv start step)) step
      in \<lparr>r_end = alignedEnd, r_start = alignedStart\<rparr>)"

text \<open>
  \<open>adjustInterval(interval, minInterval, range, intervalFactor)\<close>.  The test
  \<open>interval !== 0\<close> comes first; it is false for both zeros.
\<close>

definition adjustInterval :: "number \<Rightarrow> number \<Rightarrow> number \<Rightarrow> number \<Rightarrow> number" where
  "adjustInterval interval minInterval range' intervalFactor =
     (let interval' =
            (if \<not> nseq interval (Num 0) \<and>
                ngt (ndiv (ndiv range' intervalFactor) interval) (Num 11000)
             then ceil_number (ndiv (ndiv range' intervalFactor) (Num 11000))
             else interval)
      in nmax (nmax (nmul interval' intervalFactor) minInterval) (Num 1))"

section \<open>The host and the datasource\<close>

text \<open>
  The plugin's collaborators are not part of the datasource: the HTTP client
  (\<open>backendSrv.datasourceRequest\<close>), the template service, \<open>kbn\<close>, the result
  transformer and the JavaScript builtins it calls.  They are the fields of a record that
  every function below takes as its first argument.
\<close>

record httpOptions =
  o_url :: string
  o_method :: string
  o_headers :: "(string \<times> jsvalue) list"
  o_requestId :: "string option"
  o_silent :: bool
  o_data :: "(string \<times> jsvalue) list option"
  o_formEncoded :: bool
  o_withCredentials :: bool

record transformerOptions =
  t_format :: "string option"
  t_step :: number
  t_legendFormat :: "string option"
  t_start :: number
  t_end :: number
  t_query :: string
  t_responseListLength :: nat
  t_refId :: string
  t_valueWithRefId :: bool

record adhocFilter =
  f_key :: string
  f_operator :: string
  f_value :: string

type_synonym scopedVars = "(string \<times> jsvalue \<times> jsvalue) list"

record host =
  datasourceRequest :: "httpOptions \<Rightarrow> jsvalue + jsvalue"
  encodeURIComponent :: "jsvalue \<Rightarrow> string"
  safeStringifyValue :: "jsvalue \<Rightarrow> string"
  numberToString :: "number \<Rightarrow> string"
  parseFloat :: "jsvalue \<Rightarrow> number"
  interval_to_seconds :: "string \<Rightarrow> real"
  secondsToHms :: "number \<Rightarrow> string"
  dateMath_parse :: "string \<Rightarrow> bool \<Rightarrow> int"
  templateReplace :: "string \<Rightarrow> scopedVars \<Rightarrow> bool \<Rightarrow> string"
  getAdhocFilters :: "string \<Rightarrow> adhocFilter list"
  addLabelToQuery :: "string \<Rightarrow> string \<Rightarrow> string \<Rightarrow> string \<Rightarrow> string"
  transform :: "jsvalue \<Rightarrow> transformerOptions \<Rightarrow> jsvalue list"
  renderTemplate :: "string \<Rightarrow> (string \<times> jsvalue) list \<Rightarrow> string"

text \<open>
  \<open>datasourceRequest\<close> answers \<open>Inr response\<close> when the promise resolves and
  \<open>Inl err\<close> when it is rejected.  The last argument of \<open>templateReplace\<close> says
  whether the datasource's \<open>interpolateQueryExpr\<close> is passed as the format function.
  \<open>kbn.interval_to_seconds\<close> gives a finite number of seconds, the product of a
  count and the seconds of a unit.
\<close>

record metricsNameCache =
  c_data :: jsvalue
  c_expire :: int

record datasource =
  ds_name :: string
  ds_url :: string
  basicAuth :: jsvalue
  withCredentials :: bool
  queryTimeout :: jsvalue
  httpMethod :: string
  nameCache :: "metricsNameCache option"

datatype PromContext = Explore | Panel

record PromQuery =
  expr :: string
  hide :: bool
  p_context :: "PromContext option"
  format :: "string option"
  instant :: bool
  hinting :: bool
  interval :: "string option"
  intervalFactor :: "real option"
  legendFormat :: "string option"
  maxDataPoints :: "real option"
  refId :: string
  requestId :: "string option"
  valueWithRefId :: bool

text \<open>
  An absent \<open>expr\<close> is the empty string (both are falsy), an absent flag is \<open>False\<close>.
  The numbers of a target are those of the dashboard's JSON, which are finite.
\<close>

record PromQueryRequest =
  q_hinting :: bool
  q_instant :: bool
  q_step :: number
  q_expr :: string
  q_requestId :: string
  q_refId :: string
  q_start :: number
  q_end :: number
  q_headers :: "(string \<times> jsvalue) list"

datatype dateInput = DateString string | DateValue int

record timeRange =
  range_from :: dateInput
  range_to :: dateInput
  range_diff_ms :: int

text \<open>
  A date is a string for \<open>dateMath.parse\<close> or a moment, given by its epoch milliseconds
  (\<open>date.valueOf()\<close>); \<open>range_diff_ms\<close> is \<open>range.to.diff(range.from)\<close>.
\<close>

record DataQueryRequest =
  targets :: "PromQuery list"
  opt_range :: timeRange
  opt_interval :: string
  opt_scopedVars :: scopedVars
  panelId :: "real option"
  dashboardId :: "real option"
  opt_headers :: "(string \<times> jsvalue) list option"

section \<open>Building a query\<close>

text \<open>\<open>getPrometheusTime(date, roundUp)\<close>: seconds, rounded up with \<open>Math.ceil\<close>.\<close>

definition getPrometheusTime :: "host \<Rightarrow> dateInput \<Rightarrow> bool \<Rightarrow> number" where
  "getPrometheusTime h date roundUp =
     (let d = (case date of DateString s \<Rightarrow> dateMath_parse h s roundUp | DateValue v \<Rightarrow> v)
      in ceil_number (ndiv (Num (of_int d)) (Num 1000)))"

definition jsnum :: "real \<Rightarrow> jsvalue" where
  "jsnum r = JNumber (Num r)"

definition getRangeScopedVars :: "host \<Rightarrow> timeRange \<Rightarrow> scopedVars" where
  "getRangeScopedVars h rg =
     (let msRange = Num (of_int (range_diff_ms rg));
          sRange = round_number (ndiv msRange (Num 1000));
          regularRange = secondsToHms h (ndiv msRange (Num 1000))
      in [(''__range_ms'', JNumber msRange, JNumber msRange),
          (''__range_s'', JNumber sRange, JNumber sRange),
          (''__range'', JString regularRange, JString regularRange)])"

text \<open>
  \<open>Object.assign\<close> and the object spread: the properties of \<open>b\<close> are written over
  those of \<open>a\<close>, in the order of \<open>b\<close>.
\<close>

definition assign :: "('k \<times> 'v) list \<Rightarrow> ('k \<times> 'v) list \<Rightarrow> ('k \<times> 'v) list" where
  "assign a b = fold (\<lambda>(k, v). AList.update k v) b a"

text \<open>
  \<open>prometheusRegularEscape\<close> on a string: every single quote becomes two backslashes
  and the quote.
\<close>

definition prometheusRegularEscape :: "string \<Rightarrow> string" where
  "prometheusRegularEscape v =
     concat (map (\<lambda>c. if c = CHR 0x27 then [CHR 0x5C, CHR 0x5C, CHR 0x27] else [c]) v)"

definition optnum :: "real option \<Rightarrow> jsvalue" where
  "optnum v = (case v of None \<Rightarrow> JUndefined | Some r \<Rightarrow> jsnum r)"

text \<open>
  \<open>_addTracingHeaders\<close>: the headers that the query carries.  Proxy mode is a
  datasource URL that does not start with \<open>http\<close>.  In the code the queries of one
  request share the header object of the request; every write to it sets the same keys
  to the same values, so here each query has the headers as a value of its own.
\<close>

definition addTracingHeaders :: "datasource \<Rightarrow> DataQueryRequest \<Rightarrow> (string \<times> jsvalue) list" where
  "addTracingHeaders ds options =
     (let headers = (case opt_headers options of Some hs \<Rightarrow> hs | None \<Rightarrow> []);
          proxyMode = (take 4 (ds_url ds) \<noteq> ''http'')
      in if proxyMode
         then AList.update ''X-Panel-Id'' (optnum (panelId options))
                (AList.update ''X-Dashboard-Id'' (optnum (dashboardId options)) headers)
         else headers)"

text \<open>
  \<open>createQuery(target, options, start, end)\<close>.  The step of the query is the adjusted
  interval: when the adjusted interval differs from \<open>interval\<close> it is assigned to it,
  and otherwise it is equal to it.
\<close>

definition createQuery ::
  "host \<Rightarrow> datasource \<Rightarrow> PromQuery \<Rightarrow> DataQueryRequest \<Rightarrow> number \<Rightarrow> number \<Rightarrow>
   PromQueryRequest" where
  "createQuery h ds target options start end' =
     (let range' = ceil_number (nsub end' start);
          interval0 = Num (interval_to_seconds h (opt_interval options));
          replaced = (case interval target of None \<Rightarrow> []
                      | Some s \<Rightarrow> templateReplace h s (opt_scopedVars options) False);
          minInterval = Num (interval_to_seconds h
                               (if replaced = [] then opt_interval options else replaced));
          intervalFactor' = (case intervalFactor target of None \<Rightarrow> Num 1
                             | Some f \<Rightarrow> if f = 0 then Num 1 else Num f);
          adjustedInterval = adjustInterval interval0 minInterval range' intervalFactor';
          rangeVars = getRangeScopedVars h (opt_range options);
          interval1 = (if \<not> nseq interval0 adjustedInterval then adjustedInterval
                       else interval0);
          scopedVars =
            (if \<not> nseq interval0 adjustedInterval
             then assign (opt_scopedVars options)
                    (assign
                       [(''__interval'', JString (numberToString h interval1 @ ''s''),
                                         JString (numberToString h interval1 @ ''s'')),
                        (''__interval_ms'', JNumber (nmul interval1 (Num 1000)),
                                            JNumber (nmul interval1 (Num 1000)))]
                       rangeVars)
             else assign (opt_scopedVars options) rangeVars);
          step = interval1;
          expr1 = fold (\<lambda>flt acc.
                          addLabelToQuery h acc (f_key flt)
                            (if f_operator flt = ''=~'' \<or> f_operator flt = ''!~''
                             then prometheusRegularEscape (f_value flt) else f_value flt)
                            (f_operator flt))
                    (getAdhocFilters h (ds_name ds)) (expr target);
          adjusted = alignRange start end' step
      in \<lparr>q_hinting = hinting target,
          q_instant = instant target,
          q_step = step,
          q_expr = templateReplace h expr1 scopedVars True,
          q_requestId = (case panelId options of None \<Rightarrow> ''undefined''
                         | Some p \<Rightarrow> numberToString h (Num p)) @ refId target,
          q_refId = refId target,
          q_start = r_start adjusted,
          q_end = r_end adjusted,
          q_headers = addTracingHeaders ds options\<rparr>)"

text \<open>
  \<open>prepareTargets\<close>: the loop over \<open>options.targets\<close>, with the two arrays it fills.
  A target with no expression or with \<open>hide\<close> set is skipped; an Explore target gives
  an instant query before its range query.
\<close>

definition instantTarget :: "PromQuery \<Rightarrow> PromQuery" where
  "instantTarget target =
     target\<lparr>format := Some ''table'', instant := True, valueWithRefId := True,
            maxDataPoints := None,
            requestId := Some ((case requestId target of None \<Rightarrow> ''undefined'' | Some r \<Rightarrow> r)
                               @ ''_instant''),
            refId := refId target @ ''_instant''\<rparr>"

fun prepareTargets_loop ::
  "host \<Rightarrow> datasource \<Rightarrow> DataQueryRequest \<Rightarrow> number \<Rightarrow> number \<Rightarrow> PromQuery list \<Rightarrow>
   PromQueryRequest list \<times> PromQuery list \<Rightarrow> PromQueryRequest list \<times> PromQuery list" where
  "prepareTargets_loop h ds options start end' [] acc = acc"
| "prepareTargets_loop h ds options start end' (target # rest) (queries, activeTargets) =
     (if expr target = [] \<or> hide target
      then prepareTargets_loop h ds options start end' rest (queries, activeTargets)
      else if p_context target = Some Explore
      then (let target' = target\<lparr>format := Some ''time_series'', instant := False\<rparr>;
                it = instantTarget target'
            in prepareTargets_loop h ds options start end' rest
                 (queries @ [createQuery h ds it options start end',
                             createQuery h ds target' options start end'],
                  activeTargets @ [it, target']))
      else prepareTargets_loop h ds options start end' rest
             (queries @ [createQuery h ds target options start end'],
              activeTargets @ [target]))"

definition prepareTargets ::
  "host \<Rightarrow> datasource \<Rightarrow> DataQueryRequest \<Rightarrow> number \<Rightarrow> number \<Rightarrow>
   PromQueryRequest list \<times> PromQuery list" where
  "prepareTargets h ds options start end' =
     prepareTargets_loop h ds options start end' (targets options) ([], [])"

section \<open>Requests and errors\<close>

record DataQueryError =
  e_message :: jsvalue
  e_refId :: string
  e_status :: jsvalue
  e_statusText :: jsvalue

text \<open>
  What a function can throw, or reject its promise with: a \<open>TypeError\<close> of the
  runtime, the object \<open>{ message: 'Invalid time range' }\<close>, the error object that
  \<open>handleErrors\<close> builds, and an error of the HTTP layer that nothing has handled.
\<close>

datatype thrown = TypeError | InvalidTimeRange | QueryError DataQueryError | HttpError jsvalue

datatype 'a promise = Resolved 'a | Rejected thrown

record reqOptions =
  ro_method :: "string option"
  ro_silent :: bool
  ro_requestId :: "string option"
  ro_headers :: "(string \<times> jsvalue) list option"

fun join :: "string \<Rightarrow> string list \<Rightarrow> string" where
  "join sep [] = []"
| "join sep [x] = x"
| "join sep (x # y # ys) = x @ sep @ join sep (y # ys)"

text \<open>
  \<open>_request(url, data, options)\<close> up to its last line: the options that are handed to
  \<open>backendSrv.datasourceRequest\<close>.  \<open>data\<close> is \<open>None\<close> for \<open>null\<close>;
  \<open>o_formEncoded\<close> stands for the \<open>transformRequest\<close> that encodes the data with
  \<open>$.param\<close>.
\<close>

definition requestOptions ::
  "host \<Rightarrow> datasource \<Rightarrow> string \<Rightarrow> (string \<times> jsvalue) list option \<Rightarrow> reqOptions \<Rightarrow> httpOptions" where
  "requestOptions h ds url data ro =
     (let url0 = ds_url ds @ url;
          method0 = (case ro_method ro of Some m \<Rightarrow> m | None \<Rightarrow> httpMethod ds);
          headers0 = (case ro_headers ro of Some hs \<Rightarrow> hs | None \<Rightarrow> []);
          isEmpty = (case data of None \<Rightarrow> True | Some kvs \<Rightarrow> kvs = []);
          url1 = (if method0 = ''GET'' \<and> \<not> isEmpty
                  then url0 @ ''?'' @
                       join ''&''
                         (map (\<lambda>(k, v). encodeURIComponent h (JString k) @ ''='' @
                                          encodeURIComponent h v)
                            (case data of None \<Rightarrow> [] | Some kvs \<Rightarrow> kvs))
                  else url0);
          headers1 = (if method0 = ''GET'' then headers0
                      else AList.update ''Content-Type''
                             (JString ''application/x-www-form-urlencoded'') headers0);
          headers2 = (if truthy (basicAuth ds)
                      then AList.update ''Authorization'' (basicAuth ds) headers1
                      else headers1)
      in \<lparr>o_url = url1,
          o_method = method0,
          o_headers = headers2,
          o_requestId = ro_requestId ro,
          o_silent = ro_silent ro,
          o_data = (if method0 = ''GET'' then None else data),
          o_formEncoded = (method0 \<noteq> ''GET''),
          o_withCredentials = (truthy (basicAuth ds) \<or> withCredentials ds)\<rparr>)"

text \<open>\<open>_request\<close>: the request that is sent, and how its promise settles.\<close>

definition prom_request ::
  "host \<Rightarrow> datasource \<Rightarrow> string \<Rightarrow> (string \<times> jsvalue) list option \<Rightarrow> reqOptions \<Rightarrow>
   httpOptions \<times> (jsvalue + jsvalue)" where
  "prom_request h ds url data ro =
     (let options = requestOptions h ds url data ro in (options, datasourceRequest h options))"

definition metadataRequest :: "host \<Rightarrow> datasource \<Rightarrow> string \<Rightarrow> httpOptions \<times> (jsvalue + jsvalue)" where
  "metadataRequest h ds url =
     prom_request h ds url None
       \<lparr>ro_method = Some ''GET'', ro_silent = True, ro_requestId = None, ro_headers = None\<rparr>"

definition unknownError :: string where
  "unknownError = ''Unknown error during query transaction. Please check JS console logs.''"

text \<open>
  \<open>handleErrors(err, target)\<close>: \<open>Inr\<close> is the value it returns, \<open>Inl\<close> what it
  throws.  Its first line reads \<open>err.cancelled\<close>, which is a \<open>TypeError\<close> when
  \<open>err\<close> is \<open>undefined\<close> or \<open>null\<close>.  The datasource always passes the query it
  has built as \<open>target\<close>.
\<close>

definition handleErrors :: "host \<Rightarrow> jsvalue \<Rightarrow> PromQueryRequest \<Rightarrow> thrown + jsvalue" where
  "handleErrors h err target =
     (if nullish err then Inl TypeError
      else if truthy (getprop err ''cancelled'') then Inr err
      else
        (let d = getprop err ''data'';
             message =
               (if truthy d
                then (case d of
                        JString s \<Rightarrow> d
                      | _ \<Rightarrow> if truthy (getprop d ''error'')
                             then JString (safeStringifyValue h (getprop d ''error''))
                             else JString unknownError)
                else if truthy (getprop err ''message'') then getprop err ''message''
                else (case err of JString s \<Rightarrow> err | _ \<Rightarrow> JString unknownError))
         in Inl (QueryError
                   \<lparr>e_message = message,
                    e_refId = q_refId target,
                    e_status = getprop err ''status'',
                    e_statusText = getprop err ''statusText''\<rparr>)))"

text \<open>The \<open>.catch(err => this.handleErrors(err, query))\<close> on a request's promise.\<close>

definition catchErrors :: "host \<Rightarrow> PromQueryRequest \<Rightarrow> jsvalue + jsvalue \<Rightarrow> jsvalue promise" where
  "catchErrors h query settled =
     (case settled of
        Inr response \<Rightarrow> Resolved response
      | Inl err \<Rightarrow> (case handleErrors h err query of
                     Inr v \<Rightarrow> Resolved v
                   | Inl t \<Rightarrow> Rejected t))"

definition queryOptions :: "PromQueryRequest \<Rightarrow> reqOptions" where
  "queryOptions query =
     \<lparr>ro_method = None, ro_silent = False, ro_requestId = Some (q_requestId query),
      ro_headers = Some (q_headers query)\<rparr>"

text \<open>The \<open>data\<close> object of \<open>performTimeSeriesQuery\<close>, in the order it is filled.\<close>

definition timeSeriesData ::
  "datasource \<Rightarrow> PromQueryRequest \<Rightarrow> number \<Rightarrow> number \<Rightarrow> (string \<times> jsvalue) list" where
  "timeSeriesData ds query start end' =
     [(''query'', JString (q_expr query)),
      (''start'', JNumber start),
      (''end'', JNumber end'),
      (''step'', JNumber (q_step query))]
     @ (if truthy (queryTimeout ds) then [(''timeout'', queryTimeout ds)] else [])"

text \<open>
  \<open>performTimeSeriesQuery(query, start, end)\<close>: the requests it sends, and either what
  it throws (\<open>Inl\<close>) or the promise it returns.
\<close>

definition performTimeSeriesQuery ::
  "host \<Rightarrow> datasource \<Rightarrow> PromQueryRequest \<Rightarrow> number \<Rightarrow> number \<Rightarrow>
   httpOptions list \<times> (thrown + jsvalue promise)" where
  "performTimeSeriesQuery h ds query start end' =
     (if ngt start end' then ([], Inl InvalidTimeRange)
      else
        (let (sent, settled) =
               prom_request h ds ''/api/v1/query_range''
                 (Some (timeSeriesData ds query start end')) (queryOptions query)
         in ([sent], Inr (catchErrors h query settled))))"

definition instantData ::
  "datasource \<Rightarrow> PromQueryRequest \<Rightarrow> number \<Rightarrow> (string \<times> jsvalue) list" where
  "instantData ds query time =
     [(''query'', JString (q_expr query)), (''time'', JNumber time)]
     @ (if truthy (queryTimeout ds) then [(''timeout'', queryTimeout ds)] else [])"

definition performInstantQuery ::
  "host \<Rightarrow> datasource \<Rightarrow> PromQueryRequest \<Rightarrow> number \<Rightarrow>
   httpOptions list \<times> (thrown + jsvalue promise)" where
  "performInstantQuery h ds query time =
     (let (sent, settled) =
            prom_request h ds ''/api/v1/query'' (Some (instantData ds query time))
              (queryOptions query)
      in ([sent], Inr (catchErrors h query settled)))"

section \<open>Running the queries of a panel\<close>

definition processResult ::
  "host \<Rightarrow> jsvalue \<Rightarrow> PromQueryRequest \<Rightarrow> PromQuery \<Rightarrow> nat \<Rightarrow> jsvalue list" where
  "processResult h response query target responseListLength =
     transform h response
       \<lparr>t_format = format target,
        t_step = q_step query,
        t_legendFormat = legendFormat target,
        t_start = q_start query,
        t_end = q_end query,
        t_query = q_expr query,
        t_responseListLength = responseListLength,
        t_refId = refId target,
        t_valueWithRefId = valueWithRefId target\<rparr>"

definition performQuery ::
  "host \<Rightarrow> datasource \<Rightarrow> number \<Rightarrow> PromQueryRequest \<Rightarrow>
   httpOptions list \<times> (thrown + jsvalue promise)" where
  "performQuery h ds end' query =
     (if q_instant query then performInstantQuery h ds query end'
      else performTimeSeriesQuery h ds query (q_start query) (q_end query))"

text \<open>
  The \<open>_.map\<close> over the queries: every query is performed in turn; a query that throws
  ends the loop, after the requests of the queries before it have been sent.
\<close>

fun performAll ::
  "host \<Rightarrow> datasource \<Rightarrow> number \<Rightarrow> PromQueryRequest list \<Rightarrow>
   httpOptions list \<times> (thrown + jsvalue promise list)" where
  "performAll h ds end' [] = ([], Inr [])"
| "performAll h ds end' (query # rest) =
     (case performQuery h ds end' query of
        (sent, Inl t) \<Rightarrow> (sent, Inl t)
      | (sent, Inr p) \<Rightarrow>
          (case performAll h ds end' rest of
             (sent', Inl t) \<Rightarrow> (sent @ sent', Inl t)
           | (sent', Inr ps) \<Rightarrow> (sent @ sent', Inr (p # ps))))"

text \<open>
  \<open>$q.all\<close>: the list of the values when every promise resolves, otherwise a rejected
  promise.  The order in which promises settle is outside the model: of several
  rejections, the first of the list is taken.
\<close>

fun allPromises :: "'a promise list \<Rightarrow> 'a list promise" where
  "allPromises [] = Resolved []"
| "allPromises (Rejected t # ps) = Rejected t"
| "allPromises (Resolved v # ps) =
     (case allPromises ps of Rejected t \<Rightarrow> Rejected t | Resolved vs \<Rightarrow> Resolved (v # vs))"

text \<open>
  The \<open>_.each\<close> over the response list, from index \<open>index\<close> on, with the result so
  far.  A cancelled response is skipped.  The three arrays have the same length, so the
  two reads by index are in range.
\<close>

fun collect ::
  "host \<Rightarrow> PromQueryRequest list \<Rightarrow> PromQuery list \<Rightarrow> jsvalue list \<Rightarrow> nat \<Rightarrow> jsvalue list \<Rightarrow>
   thrown + jsvalue list" where
  "collect h queries activeTargets [] index result = Inr result"
| "collect h queries activeTargets (response # rest) index result =
     (if nullish response then Inl TypeError
      else if truthy (getprop response ''cancelled'')
      then collect h queries activeTargets rest (Suc index) result
      else collect h queries activeTargets rest (Suc index)
             (result @ processResult h response (queries ! index) (activeTargets ! index)
                         (length queries)))"

datatype LoadingState = Loading | Done

record observerEvent =
  ev_key :: string
  ev_state :: LoadingState
  ev_delta :: "jsvalue list"

text \<open>
  \<open>runObserverQueries\<close>: the loop over the indexes.  The observer is called for every
  response that arrives and is not cancelled; a rejected promise calls nothing.
\<close>

fun runObserverQueries ::
  "host \<Rightarrow> datasource \<Rightarrow> PromQueryRequest list \<Rightarrow> PromQuery list \<Rightarrow> number \<Rightarrow> nat list \<Rightarrow>
   httpOptions list \<times> observerEvent list \<times> thrown option" where
  "runObserverQueries h ds queries activeTargets end' [] = ([], [], None)"
| "runObserverQueries h ds queries activeTargets end' (index # rest) =
     (let query = queries ! index; target = activeTargets ! index
      in case performQuery h ds end' query of
           (sent, Inl t) \<Rightarrow> (sent, [], Some t)
         | (sent, Inr p) \<Rightarrow>
             (let events =
                    (case p of
                       Rejected t \<Rightarrow> []
                     | Resolved response \<Rightarrow>
                         if nullish response \<or> truthy (getprop response ''cancelled'') then []
                         else [\<lparr>ev_key = ''prometheus-'' @ refId target,
                                ev_state = (if q_instant query then Loading else Done),
                                ev_delta = processResult h response query target (length queries)\<rparr>])
              in case runObserverQueries h ds queries activeTargets end' rest of
                   (sent', events', t) \<Rightarrow> (sent @ sent', events @ events', t)))"

record queryRun =
  sent :: "httpOptions list"
  observed :: "observerEvent list"
  outcome :: "thrown + jsvalue list promise"

text \<open>
  \<open>query(options, observer)\<close>: the requests it sends, the calls of the observer, and
  either what it throws or how the promise of \<open>{ data: ... }\<close> settles.
\<close>

definition query :: "host \<Rightarrow> datasource \<Rightarrow> DataQueryRequest \<Rightarrow> bool \<Rightarrow> queryRun" where
  "query h ds options observer =
     (let start = getPrometheusTime h (range_from (opt_range options)) False;
          end' = getPrometheusTime h (range_to (opt_range options)) True;
          (queries, activeTargets) = prepareTargets h ds options start end'
      in if queries = []
         then \<lparr>sent = [], observed = [], outcome = Inr (Resolved [])\<rparr>
         else if observer \<and>
                 length (filter (\<lambda>target. p_context target = Some Explore) (targets options))
                   = length (targets options)
         then (case runObserverQueries h ds queries activeTargets end' [0..<length queries] of
                 (reqs, events, None) \<Rightarrow>
                   \<lparr>sent = reqs, observed = events, outcome = Inr (Resolved [])\<rparr>
               | (reqs, events, Some t) \<Rightarrow>
                   \<lparr>sent = reqs, observed = events, outcome = Inl t\<rparr>)
         else (case performAll h ds end' queries of
                 (reqs, Inl t) \<Rightarrow> \<lparr>sent = reqs, observed = [], outcome = Inl t\<rparr>
               | (reqs, Inr ps) \<Rightarrow>
                   \<lparr>sent = reqs, observed = [],
                    outcome =
                      Inr (case allPromises ps of
                             Rejected t \<Rightarrow> Rejected t
                           | Resolved responseList \<Rightarrow>
                               (case collect h queries activeTargets responseList 0 [] of
                                  Inl t \<Rightarrow> Rejected t
                                | Inr result \<Rightarrow> Resolved result))\<rparr>))"

section \<open>The cache of metric names\<close>

text \<open>
  \<open>s.indexOf(q)\<close> on strings: the first index at which \<open>q\<close> occurs in \<open>s\<close>, or
  \<open>-1\<close>.
\<close>

fun indexOf_from :: "string \<Rightarrow> string \<Rightarrow> nat \<Rightarrow> int" where
  "indexOf_from [] q i = (if q = [] then int i else - 1)"
| "indexOf_from (c # cs) q i =
     (if prefix q (c # cs) then int i else indexOf_from cs q (Suc i))"

definition indexOf :: "string \<Rightarrow> string \<Rightarrow> int" where
  "indexOf s q = indexOf_from s q 0"

text \<open>
  The values that lodash iterates over in \<open>_.filter(collection, ...)\<close>: the elements
  of an array, the property values of an object, the characters of a string, and nothing
  for any other value.
\<close>

fun elements :: "jsvalue \<Rightarrow> jsvalue list" where
  "elements (JArray xs) = xs"
| "elements (JObject kvs) = map snd (AList.clearjunk kvs)"
| "elements (JString s) = map (\<lambda>c. JString [c]) s"
| "elements v = []"

text \<open>
  \<open>metricName.indexOf(query)\<close>: the search in a string, the index of the first
  element that is the string \<open>query\<close> in an array, and a \<open>TypeError\<close> for a value
  that has no \<open>indexOf\<close>.
\<close>

fun array_indexOf :: "jsvalue list \<Rightarrow> jsvalue \<Rightarrow> nat \<Rightarrow> int" where
  "array_indexOf [] v i = - 1"
| "array_indexOf (x # xs) v i = (if x = v then int i else array_indexOf xs v (Suc i))"

fun value_indexOf :: "jsvalue \<Rightarrow> string \<Rightarrow> thrown + int" where
  "value_indexOf (JString s) q = Inr (indexOf s q)"
| "value_indexOf (JArray xs) q = Inr (array_indexOf xs (JString q) 0)"
| "value_indexOf v q = Inl TypeError"

text \<open>
  The \<open>_.filter\<close> of the metric names, which keeps a name unless \<open>indexOf\<close> is 1;
  the first name whose \<open>indexOf\<close> throws ends it.
\<close>

fun filterLoop :: "jsvalue list \<Rightarrow> string \<Rightarrow> thrown + jsvalue list" where
  "filterLoop [] q = Inr []"
| "filterLoop (x # xs) q =
     (case value_indexOf x q of
        Inl t \<Rightarrow> Inl t
      | Inr i \<Rightarrow>
          (case filterLoop xs q of
             Inl t \<Rightarrow> Inl t
           | Inr kept \<Rightarrow> Inr (if i \<noteq> 1 then x # kept else kept)))"

definition filterNames :: "jsvalue \<Rightarrow> string \<Rightarrow> thrown + jsvalue list" where
  "filterNames names q = filterLoop (elements names) q"

text \<open>
  \<open>$q.when(value)\<close>, where computing the value may throw: the method then throws.  In
  the callback of a promise, throwing rejects the promise instead (\<open>settle\<close>).
\<close>

definition whenValue :: "thrown + 'a \<Rightarrow> thrown + 'a promise" where
  "whenValue r = (case r of Inl t \<Rightarrow> Inl t | Inr v \<Rightarrow> Inr (Resolved v))"

definition settle :: "thrown + 'a \<Rightarrow> 'a promise" where
  "settle r = (case r of Inl t \<Rightarrow> Rejected t | Inr v \<Rightarrow> Resolved v)"

text \<open>
  The test \<open>cache && this.metricsNameCache && this.metricsNameCache.expire > Date.now()\<close>:
  the cache to answer from, if there is one.
\<close>

definition validCache :: "datasource \<Rightarrow> bool \<Rightarrow> int \<Rightarrow> metricsNameCache option" where
  "validCache ds cache now =
     (if cache
      then (case nameCache ds of
              None \<Rightarrow> None
            | Some c \<Rightarrow> if c_expire c > now then Some c else None)
      else None)"

text \<open>
  \<open>performSuggestQuery(query, cache)\<close>.  \<open>Date.now()\<close> is read twice: \<open>now\<close> when
  the method is called, \<open>now'\<close> when the response has arrived.  The result is the
  datasource with its cache, the requests sent, and either what the method throws or the
  promise it returns.
\<close>

definition performSuggestQuery ::
  "host \<Rightarrow> datasource \<Rightarrow> string \<Rightarrow> bool \<Rightarrow> int \<Rightarrow> int \<Rightarrow>
   datasource \<times> httpOptions list \<times> (thrown + jsvalue list promise)" where
  "performSuggestQuery h ds q cache now now' =
     (case validCache ds cache now of
        Some c \<Rightarrow> (ds, [], whenValue (filterNames (c_data c) q))
      | None \<Rightarrow>
        (case metadataRequest h ds ''/api/v1/label/__name__/values'' of
           (req, Inl err) \<Rightarrow> (ds, [req], Inr (Rejected (HttpError err)))
         | (req, Inr result) \<Rightarrow>
             (if nullish result \<or> nullish (getprop result ''data'')
              then (ds, [req], Inr (Rejected TypeError))
              else
                (let names = getprop (getprop result ''data'') ''data''
                 in (ds\<lparr>nameCache := Some \<lparr>c_data = names, c_expire = now' + 60 * 1000\<rparr>\<rparr>,
                     [req], Inr (settle (filterNames names q)))))))"

section \<open>Annotation events\<close>










section \<open>A host to evaluate the model\<close>

text \<open>
  A small host for evaluating the functions above on concrete inputs.  It knows the few
  interval strings and sample values of the examples; its HTTP client answers a silent
  request (a metadata request) with two metric names and rejects every other request as
  cancelled.
\<close>

definition sampleParseFloat :: "jsvalue \<Rightarrow> number" where
  "sampleParseFloat v =
     (case v of
        JNumber n \<Rightarrow> n
      | JString s \<Rightarrow>
          (if s = ''1'' then Num 1
           else if s = ''1563.2'' then Num (6875026306157773 / 4398046511104)
           else if s = ''1563.7'' then Num (6877225329413325 / 4398046511104)
           else if s = ''1700'' then Num 1700
           else NaN)
      | _ \<Rightarrow> NaN)"

definition sampleIntervalToSeconds :: "string \<Rightarrow> real" where
  "sampleIntervalToSeconds s =
     (if s = ''1s'' then 1 else if s = ''15s'' then 15 else if s = ''60s'' then 60
      else if s = ''1100ms'' then 2476979795053773 / 2251799813685248 else 0)"

definition sampleToString :: "jsvalue \<Rightarrow> string" where
  "sampleToString v =
     (case v of
        JString s \<Rightarrow> s
      | JNumber n \<Rightarrow> (if n = Num 0 then ''0'' else if n = Num 7 then ''7''
                      else if n = Num 15 then ''15'' else if n = Num 3600 then ''3600''
                      else ''NaN'')
      | _ \<Rightarrow> ''null'')"

definition cancelledError :: jsvalue where
  "cancelledError = JObject [(''cancelled'', JBool True)]"

definition labelValues :: jsvalue where
  "labelValues =
     JObject [(''data'', JObject [(''status'', JString ''success''),
                                (''data'', JArray [JString ''up'', JString ''node_load1''])])]"

definition sampleHost :: host where
  "sampleHost =
     \<lparr>datasourceRequest =
        (\<lambda>options. if o_silent options then Inr labelValues else Inl cancelledError),
      encodeURIComponent = sampleToString,
      safeStringifyValue = sampleToString,
      numberToString = (\<lambda>n. sampleToString (JNumber n)),
      parseFloat = sampleParseFloat,
      interval_to_seconds = sampleIntervalToSeconds,
      secondsToHms = (\<lambda>r. ''1h''),
      dateMath_parse = (\<lambda>s roundUp. 0),
      templateReplace = (\<lambda>s vars byDatasource. s),
      getAdhocFilters = (\<lambda>name. []),
      addLabelToQuery = (\<lambda>q k v operator. q),
      transform = (\<lambda>response options. [response]),
      renderTemplate = (\<lambda>fmt metric. fmt)\<rparr>"

definition sampleDatasource :: datasource where
  "sampleDatasource =
     \<lparr>ds_name = ''prom'', ds_url = [], basicAuth = JUndefined, withCredentials = False,
      queryTimeout = JString ''60s'', httpMethod = ''GET'', nameCache = None\<rparr>"

definition sampleTarget :: PromQuery where
  "sampleTarget =
     \<lparr>expr = ''up'', hide = False, p_context = None, format = None, instant = False,
      hinting = False, interval = None, intervalFactor = None, legendFormat = None,
      maxDataPoints = None, refId = ''A'', requestId = None, valueWithRefId = False\<rparr>"

definition sampleRequest :: DataQueryRequest where
  "sampleRequest =
     \<lparr>targets = [sampleTarget, sampleTarget\<lparr>refId := ''B'', instant := True\<rparr>],
      opt_range = \<lparr>range_from = DateValue 0, range_to = DateValue 3600000,
                   range_diff_ms = 3600000\<rparr>,
      opt_interval = ''15s'', opt_scopedVars = [], panelId = Some 7, dashboardId = Some 1,
      opt_headers = None\<rparr>"

definition sampleQuery :: PromQueryRequest where
  "sampleQuery =
     \<lparr>q_hinting = False, q_instant = False, q_step = Num 15, q_expr = ''up'',
      q_requestId = ''7A'', q_refId = ''A'', q_start = Num 0, q_end = Num 3600,
      q_headers = []\<rparr>"



section \<open>Rounding: properties\<close>

text \<open>
  The exponent that \<open>expo\<close> computes is the binary exponent, so \<open>round_double\<close>
  moves a real by at most half a unit in the last place: a relative error of at most
  \<open>2 ^ (- 53)\<close> from \<open>2 ^ (- 1022)\<close> on.
\<close>

lemma pow2_powi: "pow2 e = 2 powi e"
  by (simp add: pow2_def power_int_def field_simps)

lemma pow2_pos: "0 < pow2 e"
  by (simp add: pow2_powi)

lemma pow2_add: "pow2 (a + b) = pow2 a * pow2 b"
  by (simp add: pow2_powi power_int_add)

lemma pow2_mono: "a \<le> b \<Longrightarrow> pow2 a \<le> pow2 b"
  by (simp add: pow2_powi power_int_increasing)

lemma round_even_error: "\<bar>of_int (round_even t) - t\<bar> \<le> 1 / 2"
proof -
  have "of_int \<lfloor>t\<rfloor> \<le> t" "t < of_int \<lfloor>t\<rfloor> + 1" by linarith+
  then show ?thesis
    by (auto simp add: round_even_def Let_def)
qed

lemma expo_bounds:
  assumes "x \<noteq> 0"
  shows "pow2 (expo x) \<le> \<bar>x\<bar>" and "\<bar>x\<bar> < pow2 (expo x + 1)"
proof -
  let ?a = "\<bar>x\<bar>"
  have a: "0 < ?a" using assms by simp
  have "pow2 (expo x) \<le> ?a \<and> ?a < pow2 (expo x + 1)"
  proof (cases "1 \<le> ?a")
    case True
    let ?m = "\<lfloor>?a\<rfloor>"
    have m: "0 < ?m" using True by linarith
    have e: "expo x = bitlen ?m - 1" using True by (simp add: expo_def)
    have b1: "1 \<le> bitlen ?m" using m by (simp add: bitlen_alt_def)
    from bitlen_bounds [OF m]
    have lo: "(2::int) ^ nat (bitlen ?m - 1) \<le> ?m" and hi: "?m < 2 ^ nat (bitlen ?m)" by blast+
    have "pow2 (expo x) = 2 ^ nat (bitlen ?m - 1)"
      using b1 by (simp add: e pow2_def)
    also have "\<dots> = real_of_int (2 ^ nat (bitlen ?m - 1))" by simp
    also have "\<dots> \<le> real_of_int ?m" using lo by (simp only: of_int_le_iff)
    also have "\<dots> \<le> ?a" by linarith
    finally have l: "pow2 (expo x) \<le> ?a" .
    have "?m + 1 \<le> 2 ^ nat (bitlen ?m)" using hi by simp
    then have "real_of_int (?m + 1) \<le> real_of_int (2 ^ nat (bitlen ?m))"
      by (simp only: of_int_le_iff)
    then have h1: "real_of_int ?m + 1 \<le> 2 ^ nat (bitlen ?m)" by simp
    have h2: "?a < real_of_int ?m + 1" by linarith
    have "?a < 2 ^ nat (bitlen ?m)" using h1 h2 by (rule less_le_trans [rotated])
    moreover have "pow2 (expo x + 1) = 2 ^ nat (bitlen ?m)"
      using b1 by (simp add: e pow2_def)
    ultimately show ?thesis using l by (simp only:)
  next
    case False
    then have lt: "?a < 1" by simp
    let ?n = "\<lceil>1 / ?a\<rceil>"
    have inv: "1 < 1 / ?a" using a lt by simp
    have n: "0 < ?n - 1" using inv by linarith
    have e: "expo x = - bitlen (?n - 1)" using False by (simp add: expo_def)
    let ?k = "bitlen (?n - 1)"
    have k1: "1 \<le> ?k" using n by (simp add: bitlen_alt_def)
    from bitlen_bounds [OF n]
    have lo: "(2::int) ^ nat (?k - 1) \<le> ?n - 1" and hi: "?n - 1 < 2 ^ nat ?k" by blast+
    have "?n \<le> 2 ^ nat ?k" using hi by simp
    then have "real_of_int ?n \<le> real_of_int (2 ^ nat ?k)"
      by (simp only: of_int_le_iff)
    then have g1: "real_of_int ?n \<le> 2 ^ nat ?k" by simp
    have g2: "1 / ?a \<le> real_of_int ?n" by linarith
    have "1 / ?a \<le> 2 ^ nat ?k" using g2 g1 by (rule order_trans)
    then have "1 \<le> 2 ^ nat ?k * ?a" using a by (simp add: field_simps)
    then have "1 / 2 ^ nat ?k \<le> ?a" by (simp add: field_simps)
    moreover have "pow2 (expo x) = 1 / 2 ^ nat ?k"
      using k1 by (simp add: e pow2_def)
    ultimately have l: "pow2 (expo x) \<le> ?a" by simp
    have "real_of_int (2 ^ nat (?k - 1)) \<le> real_of_int (?n - 1)"
      using lo by (simp only: of_int_le_iff)
    then have g3: "2 ^ nat (?k - 1) \<le> real_of_int ?n - 1" by simp
    have g4: "real_of_int ?n - 1 < 1 / ?a" by linarith
    have "2 ^ nat (?k - 1) < 1 / ?a" using g3 g4 by (rule le_less_trans)
    then have "2 ^ nat (?k - 1) * ?a < 1" using a by (simp add: field_simps)
    then have "?a < 1 / 2 ^ nat (?k - 1)" by (simp add: field_simps)
    moreover have "pow2 (expo x + 1) = 1 / 2 ^ nat (?k - 1)"
    proof (cases "?k = 1")
      case True
      then show ?thesis by (simp add: e pow2_def)
    next
      case False
      then have "nat (?k - 1) = nat (- (- ?k + 1))" "\<not> 0 \<le> - ?k + 1" using k1 by simp_all
      then show ?thesis by (simp add: e pow2_def)
    qed
    ultimately show ?thesis using l by (simp only:)
  qed
  then show "pow2 (expo x) \<le> \<bar>x\<bar>" and "\<bar>x\<bar> < pow2 (expo x + 1)" by blast+
qed

lemma round_double_error:
  assumes "x \<noteq> 0"
  shows "\<bar>round_double x - x\<bar> \<le> pow2 (max (expo x - 52) (- 1074)) / 2"
proof -
  let ?p = "pow2 (max (expo x - 52) (- 1074))"
  have p: "0 < ?p" by (rule pow2_pos)
  have r: "round_double x = of_int (round_even (x / ?p)) * ?p"
    using assms by (simp add: round_double_def Let_def)
  have "round_double x - x = (of_int (round_even (x / ?p)) - x / ?p) * ?p"
    using p by (simp add: r field_simps)
  then have "\<bar>round_double x - x\<bar> = \<bar>of_int (round_even (x / ?p)) - x / ?p\<bar> * ?p"
    using p by (simp add: abs_mult)
  also have "\<dots> \<le> 1 / 2 * ?p"
    using round_even_error [of "x / ?p"] p by (intro mult_right_mono) simp_all
  finally show ?thesis by simp
qed

lemma pow2_expo_52:
  assumes "x \<noteq> 0"
  shows "pow2 (expo x - 52) \<le> \<bar>x\<bar> / 2 ^ 52"
proof -
  have "pow2 (expo x - 52) = pow2 (expo x) * pow2 (- 52)"
    using pow2_add [of "expo x" "- 52"] by simp
  also have "\<dots> = pow2 (expo x) / 2 ^ 52" by (simp add: pow2_def)
  also have "\<dots> \<le> \<bar>x\<bar> / 2 ^ 52"
    using expo_bounds(1) [OF assms] by (simp add: divide_right_mono)
  finally show ?thesis .
qed

lemma expo_normal:
  assumes "1 / 2 ^ 1022 \<le> \<bar>x\<bar>"
  shows "max (expo x - 52) (- 1074) = expo x - 52"
proof -
  have x: "x \<noteq> 0" using assms by auto
  have "- 1022 \<le> expo x"
  proof (rule ccontr)
    assume "\<not> - 1022 \<le> expo x"
    then have "expo x + 1 \<le> - 1022" by simp
    then have "pow2 (expo x + 1) \<le> pow2 (- 1022)" by (rule pow2_mono)
    also have "\<dots> = 1 / 2 ^ 1022" by (simp add: pow2_def)
    finally show False using expo_bounds(2) [OF x] assms by linarith
  qed
  then show ?thesis by simp
qed

lemma round_double_relative:
  assumes "1 / 2 ^ 1022 \<le> x"
  shows "x * (1 - 1 / 2 ^ 53) \<le> round_double x" and "round_double x \<le> x * (1 + 1 / 2 ^ 53)"
proof -
  have pos: "0 < x" using assms by (rule less_le_trans [rotated]) simp
  then have x: "x \<noteq> 0" and a: "\<bar>x\<bar> = x" by simp_all
  have "\<bar>round_double x - x\<bar> \<le> pow2 (expo x - 52) / 2"
    using round_double_error [OF x] expo_normal [of x] assms a by simp
  also have "\<dots> \<le> x / 2 ^ 52 / 2"
    using pow2_expo_52 [OF x] a by simp
  finally have d: "\<bar>round_double x - x\<bar> \<le> x / 2 ^ 53" by simp
  have e1: "x * (1 - 1 / 2 ^ 53) = x - x / 2 ^ 53"
    and e2: "x * (1 + 1 / 2 ^ 53) = x + x / 2 ^ 53"
    by (simp_all only: right_diff_distrib distrib_left mult_1_right times_divide_eq_right)
  show "x * (1 - 1 / 2 ^ 53) \<le> round_double x" unfolding e1 using d by linarith
  show "round_double x \<le> x * (1 + 1 / 2 ^ 53)" unfolding e2 using d by linarith
qed

lemma fl_not_NaN: "fl s x \<noteq> NaN"
  by (simp add: fl_def Let_def)

lemma ndiv_Num:
  "b \<noteq> 0 \<Longrightarrow> ndiv (Num a) (Num b) = fl ((a < 0) \<noteq> (b < 0)) (a / b)"
  by (simp add: ndiv_def is_zero_def is_infinite_def)

lemma nmul_Num: "nmul (Num a) (Num b) = fl ((a < 0) \<noteq> (b < 0)) (a * b)"
  by (simp add: nmul_def is_zero_def is_infinite_def)

lemma ngt_Num: "ngt (Num a) (Num b) = (b < a)"
  by (simp add: ngt_def nlt_def is_infinite_def)

lemma nseq_Num: "nseq (Num a) (Num b) = (a = b)"
  by (auto simp add: nseq_def nlt_def is_infinite_def)

lemma chain_plain:
  fixes c f i R y1 y2 y3 r :: real
  assumes "0 < c" "0 < f" "0 < i"
    and "R * c \<le> y1 * f" and "y1 * c \<le> y2 * i" and "y2 \<le> 11000"
    and "i * f * c \<le> y3" and "y3 \<le> r"
  shows "R * c ^ 3 \<le> 11000 * r"
proof -
  have "R * c * c \<le> y1 * f * c" using assms(1,4) by (intro mult_right_mono) simp_all
  also have "\<dots> = (y1 * c) * f" by simp
  also have "\<dots> \<le> (y2 * i) * f" using assms(2,5) by (intro mult_right_mono) simp_all
  also have "\<dots> = y2 * (i * f)" by simp
  also have "\<dots> \<le> 11000 * (i * f)" using assms(2,3,6) by (intro mult_right_mono) simp_all
  finally have "R * c * c * c \<le> 11000 * (i * f) * c"
    using assms(1) by (intro mult_right_mono) simp_all
  also have "\<dots> = 11000 * (i * f * c)" by simp
  also have "\<dots> \<le> 11000 * r" using assms(7,8) by simp
  finally show ?thesis by (simp add: power3_eq_cube mult.assoc)
qed

lemma chain_calibrated:
  fixes c f R y1 y4 k y5 r :: real
  assumes "0 < c" "0 < f"
    and "R * c \<le> y1 * f" and "y1 * c \<le> y4 * 11000" and "y4 \<le> k"
    and "k * f * c \<le> y5" and "y5 \<le> r"
  shows "R * c ^ 3 \<le> 11000 * r"
proof -
  have "R * c * c \<le> y1 * f * c" using assms(1,3) by (intro mult_right_mono) simp_all
  also have "\<dots> = (y1 * c) * f" by simp
  also have "\<dots> \<le> (y4 * 11000) * f" using assms(2,4) by (intro mult_right_mono) simp_all
  also have "\<dots> = 11000 * f * y4" by simp
  also have "\<dots> \<le> 11000 * f * k" using assms(2,5) by (intro mult_left_mono) simp_all
  finally have "R * c * c * c \<le> 11000 * f * k * c"
    using assms(1) by (intro mult_right_mono) simp_all
  also have "\<dots> = 11000 * (k * f * c)" by simp
  also have "\<dots> \<le> 11000 * r" using assms(6,7) by simp
  finally show ?thesis by (simp add: power3_eq_cube mult.assoc)
qed

lemma ceiling_bound_finish:
  fixes R r c :: real
  assumes "R * c ^ 3 \<le> 11000 * r" and "0 < r" and "0 < c"
  shows "R / r \<le> 11000 / c ^ 3"
proof -
  have c3: "0 < c ^ 3" using assms(3) by simp
  have "R / r \<le> 11000 / c ^ 3 \<longleftrightarrow> R * c ^ 3 \<le> 11000 * r"
    using assms(2) c3 by (simp add: field_simps)
  then show ?thesis using assms(1) by simp
qed

text \<open>The equations that evaluate the operations on given numbers.\<close>

lemmas number_eval =
  fl_def round_double_def expo_def compute_bitlen pow2_def round_even_def
  nmul_def ndiv_def nsub_def nmax_def nlt_def ngt_def nle_def nseq_def
  is_zero_def is_infinite_def infinity_def zero_def Let_def

lemma ndiv_not_NaN: "a \<noteq> NaN \<Longrightarrow> k \<noteq> 0 \<Longrightarrow> ndiv a (Num k) \<noteq> NaN"
  by (cases a) (simp_all add: ndiv_def is_zero_def is_infinite_def infinity_def fl_not_NaN)

lemma ndiv_NaN_left: "ndiv NaN b = NaN"
  by (simp add: ndiv_def)

lemma nmul_not_NaN: "a \<noteq> NaN \<Longrightarrow> k \<noteq> 0 \<Longrightarrow> nmul a (Num k) \<noteq> NaN"
  by (cases a) (simp_all add: nmul_def is_zero_def is_infinite_def infinity_def fl_not_NaN)

lemma ceil_not_NaN: "a \<noteq> NaN \<Longrightarrow> ceil_number a \<noteq> NaN"
  by (cases a) simp_all

lemma ngt_not_NaN: "ngt a b \<Longrightarrow> a \<noteq> NaN"
  by (simp add: ngt_def nlt_def)

lemma nmax_ge:
  assumes "a \<noteq> NaN" and "m \<noteq> NaN"
  shows "nle (Num 1) (nmax (nmax a m) (Num 1))"
    and "nle m (nmax (nmax a m) (Num 1))"
  using assms
  by (cases a; cases m; auto simp add: nmax_def nlt_def nle_def is_infinite_def)+

lemma nseq_nle: "nseq a b \<Longrightarrow> nle c b \<Longrightarrow> nle c a"
  by (cases a; cases b; cases c; auto simp add: nseq_def nle_def nlt_def is_infinite_def)

lemma nle_one_not_zero: "nle (Num 1) s \<Longrightarrow> s \<noteq> NaN \<and> \<not> is_zero s"
  by (auto simp add: nle_def nlt_def is_zero_def is_infinite_def)

lemma round_double_abs_error:
  assumes "x \<noteq> 0"
  shows "\<bar>round_double x - x\<bar> \<le> \<bar>x\<bar> / 2 ^ 53 + 1 / 2 ^ 1075"
proof -
  have "pow2 (max (expo x - 52) (- 1074)) \<le> pow2 (expo x - 52) + pow2 (- 1074)"
    using pow2_pos [of "expo x - 52"] pow2_pos [of "- 1074"] by (simp add: max_def)
  also have "\<dots> \<le> \<bar>x\<bar> / 2 ^ 52 + pow2 (- 1074)"
    using pow2_expo_52 [OF assms] by simp
  also have "pow2 (- 1074) = 1 / 2 ^ 1074" by (simp add: pow2_def)
  finally have "pow2 (max (expo x - 52) (- 1074)) / 2 \<le> (\<bar>x\<bar> / 2 ^ 52 + 1 / 2 ^ 1074) / 2"
    by simp
  also have "\<dots> = \<bar>x\<bar> / 2 ^ 53 + 1 / 2 ^ 1075" by simp
  finally show ?thesis using round_double_error [OF assms] by linarith
qed

lemma fl_cases:
  assumes "1 / 2 ^ 1022 \<le> x"
  shows "fl s x = PosInfinity
       \<or> (\<exists>y. fl s x = Num y \<and> x * (1 - 1 / 2 ^ 53) \<le> y \<and> 0 < y)"
proof -
  have pos: "0 < x" using assms by (rule less_le_trans [rotated]) simp
  have "0 < x * (1 - 1 / 2 ^ 53)" using pos by (intro mult_pos_pos) simp_all
  then have y: "0 < round_double x" "x * (1 - 1 / 2 ^ 53) \<le> round_double x"
    using round_double_relative(1) [OF assms] by linarith+
  show ?thesis
  proof (cases "2 ^ 1024 \<le> \<bar>round_double x\<bar>")
    case True
    then have "fl s x = PosInfinity" using pos by (simp add: fl_def Let_def)
    then show ?thesis by simp
  next
    case False
    then have "fl s x = Num (round_double x)" using y(1) by (simp add: fl_def Let_def)
    then show ?thesis using y by simp
  qed
qed

lemma fl_tiny:
  assumes "1 / 2 ^ 1074 \<le> x" and "x \<le> 1"
  shows "\<exists>y. fl s x = Num y \<and> 0 < y"
proof -
  have pos: "0 < x" using assms(1) by (rule less_le_trans [rotated]) simp
  then have x: "x \<noteq> 0" and a: "\<bar>x\<bar> = x" by simp_all
  have d: "\<bar>round_double x - x\<bar> \<le> x / 2 ^ 53 + 1 / 2 ^ 1075"
    using round_double_abs_error [OF x] a by simp
  have h: "x / 2 ^ 53 \<le> x / 4" using pos by (intro divide_left_mono) simp_all
  have "(1::real) / 2 ^ 1075 = (1 / 2 ^ 1074) / 2" by simp
  also have "\<dots> \<le> x / 2" using assms(1) by simp
  finally have t: "(1::real) / 2 ^ 1075 \<le> x / 2" .
  have lo: "0 < round_double x" using d h t pos by linarith
  have "round_double x \<le> 2 * x" using d h t pos by linarith
  then have "\<bar>round_double x\<bar> \<le> 2" using lo assms(2) by linarith
  also have "(2::real) < 2 ^ 1024" by simp
  finally have "\<not> 2 ^ 1024 \<le> \<bar>round_double x\<bar>" by simp
  then have "fl s x = Num (round_double x)" using lo by (simp add: fl_def Let_def)
  then show ?thesis using lo by simp
qed

lemma ceil_fl_pos:
  assumes "1 / 2 ^ 1074 \<le> x"
  shows "ceil_number (fl s x) = PosInfinity
       \<or> (\<exists>k. ceil_number (fl s x) = Num k \<and> 1 \<le> k \<and> x * (1 - 1 / 2 ^ 53) \<le> k)"
proof -
  have pos: "0 < x" using assms by (rule less_le_trans [rotated]) simp
  have xc: "x * (1 - 1 / 2 ^ 53) \<le> x"
    using pos by (simp add: mult_le_cancel_left2)
  have k: "ceil_number (Num y) = Num (of_int \<lceil>y\<rceil>) \<and> (1::real) \<le> of_int \<lceil>y\<rceil>
           \<and> y \<le> of_int \<lceil>y\<rceil>" if "0 < y" for y :: real
  proof -
    have "0 < \<lceil>y\<rceil>" using that by simp
    then have "1 \<le> \<lceil>y\<rceil>" by simp
    then have "(1::real) \<le> of_int \<lceil>y\<rceil>" by (simp only: of_int_1_le_iff)
    then show ?thesis using that by simp
  qed
  show ?thesis
  proof (cases "1 / 2 ^ 1022 \<le> x")
    case True
    from fl_cases [OF True, of s] show ?thesis
    proof
      assume "fl s x = PosInfinity"
      then show ?thesis by simp
    next
      assume "\<exists>y. fl s x = Num y \<and> x * (1 - 1 / 2 ^ 53) \<le> y \<and> 0 < y"
      then obtain y where y: "fl s x = Num y" "x * (1 - 1 / 2 ^ 53) \<le> y" "0 < y" by blast
      have "x * (1 - 1 / 2 ^ 53) \<le> of_int \<lceil>y\<rceil>" using k [OF y(3)] y(2) by linarith
      then show ?thesis unfolding y(1) using k [OF y(3)] by blast
    qed
  next
    case False
    have "(1::real) / 2 ^ 1022 \<le> 1" by simp
    then have x1: "x \<le> 1" using False by linarith
    obtain y where y: "fl s x = Num y" "0 < y" using fl_tiny [OF assms x1, of s] by blast
    have "x * (1 - 1 / 2 ^ 53) \<le> of_int \<lceil>y\<rceil>" using k [OF y(2)] xc x1 by linarith
    then show ?thesis unfolding y(1) using k [OF y(2)] by blast
  qed
qed

lemma fl_not_gt:
  assumes "0 < x" and "\<not> ngt (fl s x) (Num 11000)"
  shows "x * (1 - 1 / 2 ^ 53) \<le> 11000"
proof (cases "1 / 2 ^ 1022 \<le> x")
  case True
  from fl_cases [OF True, of s] show ?thesis
  proof
    assume "fl s x = PosInfinity"
    then have "ngt (fl s x) (Num 11000)" by (simp add: ngt_def nlt_def)
    then show ?thesis using assms(2) by simp
  next
    assume "\<exists>y. fl s x = Num y \<and> x * (1 - 1 / 2 ^ 53) \<le> y \<and> 0 < y"
    then obtain y where y: "fl s x = Num y" "x * (1 - 1 / 2 ^ 53) \<le> y" by blast
    have "y \<le> 11000" using assms(2) unfolding y(1) by (simp add: ngt_Num)
    then show ?thesis using y(2) by linarith
  qed
next
  case False
  have "(1::real) / 2 ^ 1022 \<le> 1" by simp
  then have x1: "x \<le> 1" using False by linarith
  have "x * (1 - 1 / 2 ^ 53) \<le> x" using assms(1) by (simp add: mult_le_cancel_left2)
  then show ?thesis using x1 by linarith
qed

lemma nmax_PosInfinity: "nmax (nmax PosInfinity (Num m)) (Num 1) = PosInfinity"
  by (simp add: nmax_def nlt_def is_infinite_def)

lemma nmax_Num_ge:
  assumes "nmax (nmax (Num y) (Num m)) (Num 1) = Num r"
  shows "y \<le> r"
  using assms by (simp add: nmax_def nlt_def is_infinite_def split: if_splits)

lemma nle_one_cases:
  assumes "nle (Num 1) a"
  shows "a = PosInfinity \<or> (\<exists>r. a = Num r \<and> 1 \<le> r)"
  using assms by (cases a) (simp_all add: nle_def nlt_def is_infinite_def)

section \<open>Alignment and interval adjustment: properties\<close>

lemma adjustInterval_at_least:
  assumes "factor \<noteq> 0" and "ivl \<noteq> NaN" and "minI \<noteq> NaN"
  shows "nle (Num 1) (adjustInterval ivl minI rng (Num factor))"
    and "nle minI (adjustInterval ivl minI rng (Num factor))"
proof -
  let ?q = "ndiv rng (Num factor)"
  let ?i' = "if \<not> nseq ivl (Num 0) \<and> ngt (ndiv ?q ivl) (Num 11000)
             then ceil_number (ndiv ?q (Num 11000)) else ivl"
  have "?i' \<noteq> NaN"
  proof (cases "\<not> nseq ivl (Num 0) \<and> ngt (ndiv ?q ivl) (Num 11000)")
    case True
    then have "ndiv ?q ivl \<noteq> NaN" using ngt_not_NaN by blast
    then have "?q \<noteq> NaN" using ndiv_NaN_left by metis
    then have "ndiv ?q (Num 11000) \<noteq> NaN" by (rule ndiv_not_NaN) simp
    then have "ceil_number (ndiv ?q (Num 11000)) \<noteq> NaN" by (rule ceil_not_NaN)
    then show ?thesis using True by simp
  next
    case False
    then show ?thesis using assms(2) by auto
  qed
  then have x: "nmul ?i' (Num factor) \<noteq> NaN" using assms(1) by (rule nmul_not_NaN)
  have a: "adjustInterval ivl minI rng (Num factor)
             = nmax (nmax (nmul ?i' (Num factor)) minI) (Num 1)"
    by (simp add: adjustInterval_def Let_def)
  show "nle (Num 1) (adjustInterval ivl minI rng (Num factor))"
    unfolding a using x assms(3) by (rule nmax_ge(1))
  show "nle minI (adjustInterval ivl minI rng (Num factor))"
    unfolding a using x assms(3) by (rule nmax_ge(2))
qed

lemma createQuery_step:
  "q_step (createQuery h ds target options start end') =
     (let interval0 = Num (interval_to_seconds h (opt_interval options));
          replaced = (case interval target of None \<Rightarrow> []
                      | Some s \<Rightarrow> templateReplace h s (opt_scopedVars options) False);
          minInterval = Num (interval_to_seconds h
                               (if replaced = [] then opt_interval options else replaced));
          intervalFactor' = (case intervalFactor target of None \<Rightarrow> Num 1
                             | Some f \<Rightarrow> if f = 0 then Num 1 else Num f);
          adjustedInterval = adjustInterval interval0 minInterval
                               (ceil_number (nsub end' start)) intervalFactor'
      in if \<not> nseq interval0 adjustedInterval then adjustedInterval else interval0)"
  by (simp add: createQuery_def Let_def)

lemma createQuery_fields:
  "q_instant (createQuery h ds target options start end') = instant target"
  "q_refId (createQuery h ds target options start end') = refId target"
  "q_start (createQuery h ds target options start end')
     = r_start (alignRange start end' (q_step (createQuery h ds target options start end')))"
  "q_end (createQuery h ds target options start end')
     = r_end (alignRange start end' (q_step (createQuery h ds target options start end')))"
  by (simp_all add: createQuery_def Let_def)

lemma createQuery_step_ge_one:
  "nle (Num 1) (q_step (createQuery h ds target options start end'))"
proof -
  define f where "f = (case intervalFactor target of None \<Rightarrow> 1
                       | Some f \<Rightarrow> if f = 0 then 1 else f)"
  have f: "(case intervalFactor target of None \<Rightarrow> Num 1
            | Some f \<Rightarrow> if f = 0 then Num 1 else Num f) = Num f" "f \<noteq> 0"
    by (simp_all add: f_def split: option.splits)
  let ?i = "interval_to_seconds h (opt_interval options)"
  obtain m where m: "Num (interval_to_seconds h
       (if (case interval target of None \<Rightarrow> []
            | Some s \<Rightarrow> templateReplace h s (opt_scopedVars options) False) = []
        then opt_interval options
        else (case interval target of None \<Rightarrow> []
              | Some s \<Rightarrow> templateReplace h s (opt_scopedVars options) False))) = Num m"
    by blast
  let ?adj = "adjustInterval (Num ?i) (Num m) (ceil_number (nsub end' start)) (Num f)"
  have s: "q_step (createQuery h ds target options start end')
             = (if \<not> nseq (Num ?i) ?adj then ?adj else Num ?i)"
    unfolding createQuery_step Let_def f(1) m ..
  have a: "nle (Num 1) ?adj" using f(2) by (rule adjustInterval_at_least(1)) simp_all
  show ?thesis
  proof (cases "nseq (Num ?i) ?adj")
    case True
    then have "nle (Num 1) (Num ?i)" using a by (rule nseq_nle)
    then show ?thesis using True by (simp add: s)
  next
    case False
    then show ?thesis using a by (simp add: s)
  qed
qed

lemma alignRange_step_11:
  "alignRange (Num 1563000010) (Num 1563003610) (Num (2476979795053773 / 2251799813685248))
     = \<lparr>r_end = Num (6555712290081997 / 4194304), r_start = Num (6555697193943041 / 4194304)\<rparr>"
  by (simp add: alignRange_def number_eval)

lemma createQuery_step_11:
  "q_step (createQuery sampleHost sampleDatasource sampleTarget
             (sampleRequest\<lparr>opt_interval := ''1100ms''\<rparr>)
             (Num 1563000010) (Num 1563003610))
     = Num (2476979795053773 / 2251799813685248)"
proof -
  let ?s = "Num (2476979795053773 / 2251799813685248)"
  have c: "ceil_number (nsub (Num 1563003610) (Num 1563000010)) = Num 3600"
    by (simp add: number_eval)
  have a: "adjustInterval ?s ?s (Num 3600) (Num 1) = ?s"
    by (simp add: adjustInterval_def number_eval)
  have "q_step (createQuery sampleHost sampleDatasource sampleTarget
                  (sampleRequest\<lparr>opt_interval := ''1100ms''\<rparr>)
                  (Num 1563000010) (Num 1563003610))
          = (if \<not> nseq ?s (adjustInterval ?s ?s (Num 3600) (Num 1))
             then adjustInterval ?s ?s (Num 3600) (Num 1) else ?s)"
    unfolding createQuery_step c
    by (simp add: sampleHost_def sampleTarget_def sampleIntervalToSeconds_def Let_def)
  then show ?thesis unfolding a by simp
qed

text \<open>
  Claim C1.  The start that \<open>alignRange\<close> returns is meant to be the largest multiple
  of the step that does not exceed the original start.  The code at start 1563000010,
  end 1563003610 and the step 1.1 (the double nearest to it): the quotient rounds up to
  1420909100, and its product with the step rounds to \<open>1563000010 + 2 ^ (- 22)\<close>,
  which is above the original start.  \<open>createQuery\<close> calls \<open>alignRange\<close> with these
  numbers for an interval of 1100 milliseconds over that hour.
\<close>

theorem alignRange_above_start:
  "r_start (alignRange (Num 1563000010) (Num 1563003610)
              (Num (2476979795053773 / 2251799813685248)))
     = Num (6555697193943041 / 4194304)
   \<and> (1563000010 :: real) < 6555697193943041 / 4194304
   \<and> \<not> nle (r_start (alignRange (Num 1563000010) (Num 1563003610)
                       (Num (2476979795053773 / 2251799813685248))))
             (Num 1563000010)
   \<and> q_start (createQuery sampleHost sampleDatasource sampleTarget
                (sampleRequest\<lparr>opt_interval := ''1100ms''\<rparr>)
                (Num 1563000010) (Num 1563003610))
       = Num (6555697193943041 / 4194304)"
  unfolding createQuery_fields(3) createQuery_step_11 alignRange_step_11
  by (simp add: nle_def nlt_def is_infinite_def)

text \<open>
  Claim C2 as stated fails for a zero interval: the test \<open>interval !== 0\<close> leaves it
  alone, and with no minimum the step is 1, which is a million points over a range of a
  million seconds.
\<close>

theorem adjustInterval_ceiling_zero_interval:
  "(0::real) \<le> 0 \<and> (0::real) \<le> 1000000 \<and> (1::real) \<le> 1
   \<and> adjustInterval (Num 0) (Num 0) (Num 1000000) (Num 1) = Num 1
   \<and> \<not> ((1000000 :: real) / 1 \<le> 11000)"
  by (simp add: adjustInterval_def number_eval)

text \<open>
  For a positive interval the bound of 11000 holds up to the rounding of the three
  operations between the range and the result.  At interval 0.122, range 12078 and
  factor 9 the quotient is 11000 exactly, the interval is kept, and its product with the
  factor rounds down: the range divided by the result is above 11000.
\<close>

lemma adjustInterval_rounding:
  "adjustInterval (Num (1098878309078401 / 9007199254740992)) (Num 0) (Num 12078) (Num 9)
     = Num (1236238097713201 / 1125899906842624)
   \<and> (11000 :: real) < 12078 / (1236238097713201 / 1125899906842624)"
  by (simp add: adjustInterval_def number_eval)

text \<open>
  Claim C2, amended.  For every positive interval and every interval factor of at least
  1 (and at most \<open>2 ^ 1024\<close>, as every double is), whatever the range and the minimum
  interval, \<open>adjustInterval\<close> returns infinity or a finite number of at least 1, and
  the range divided by that number does not exceed 11000 divided by
  \<open>(1 - 2 ^ (- 53)) ^ 3\<close>: the bound of 11000 up to the rounding of the three
  operations between the range and the result.
\<close>

theorem adjustInterval_ceiling:
  assumes "0 < ival" and "1 \<le> factor" and "factor \<le> 2 ^ 1024"
  shows "adjustInterval (Num ival) (Num minInterval) (Num rng) (Num factor) = PosInfinity
       \<or> (\<exists>r. adjustInterval (Num ival) (Num minInterval) (Num rng) (Num factor) = Num r
              \<and> 1 \<le> r \<and> rng / r \<le> 11000 / (1 - 1 / 2 ^ 53) ^ 3)"
proof -
  let ?A = "adjustInterval (Num ival) (Num minInterval) (Num rng) (Num factor)"
  let ?c = "1 - 1 / 2 ^ 53 :: real"
  have c: "0 < ?c" "?c \<le> 1" "1 / 2 \<le> ?c" by simp_all
  have fpos: "0 < factor" using assms(2) by linarith
  then have f0: "factor \<noteq> 0" by simp
  have ipos: "ival \<noteq> 0" "\<not> ival < 0" using assms(1) by simp_all
  have "nle (Num 1) ?A" using f0 by (rule adjustInterval_at_least(1)) simp_all
  then have "?A = PosInfinity \<or> (\<exists>r. ?A = Num r \<and> 1 \<le> r)" by (rule nle_one_cases)
  then show ?thesis
  proof
    assume "?A = PosInfinity"
    then show ?thesis by simp
  next
    assume "\<exists>r. ?A = Num r \<and> 1 \<le> r"
    then obtain r where r: "?A = Num r" "1 \<le> r" by blast
    have rpos: "0 < r" using r(2) by linarith
    have main: "rng * ?c ^ 3 \<le> 11000 * r"
    proof (cases "rng \<le> 11000")
      case True
      have c3: "0 \<le> ?c ^ 3" "?c ^ 3 \<le> 1" using c by (simp_all add: power_le_one)
      show ?thesis
      proof (cases "rng \<le> 0")
        case t: True
        have "rng * ?c ^ 3 \<le> 0" using t c3(1) by (rule mult_nonpos_nonneg)
        also have "0 \<le> 11000 * r" using rpos by simp
        finally show ?thesis .
      next
        case False
        then have "rng * ?c ^ 3 \<le> rng * 1" using c3(2) by (intro mult_left_mono) simp_all
        also have "\<dots> \<le> 11000 * 1" using True by simp
        also have "\<dots> \<le> 11000 * r" using r(2) by (intro mult_left_mono) simp_all
        finally show ?thesis .
      qed
    next
      case False
      then have R: "11000 < rng" by simp
      have x1: "1 / 2 ^ 1022 \<le> rng / factor"
      proof -
        have "(1::real) / 2 ^ 1022 \<le> 11000 / 2 ^ 1024" by simp
        also have "\<dots> \<le> rng / 2 ^ 1024" using R by (intro divide_right_mono) simp_all
        also have "\<dots> \<le> rng / factor"
          using R fpos assms(3) by (intro divide_left_mono) simp_all
        finally show ?thesis .
      qed
      have q1: "ndiv (Num rng) (Num factor) = fl False (rng / factor)"
        using R fpos by (simp add: ndiv_Num)
      have A: "?A = nmax (nmax (nmul
                 (if ngt (ndiv (fl False (rng / factor)) (Num ival)) (Num 11000)
                  then ceil_number (ndiv (fl False (rng / factor)) (Num 11000))
                  else Num ival) (Num factor)) (Num minInterval)) (Num 1)"
        using ipos by (simp add: adjustInterval_def Let_def q1 nseq_Num)
      have inf: "nmax (nmax (nmul PosInfinity (Num factor)) (Num minInterval)) (Num 1)
                   = PosInfinity"
        using f0 fpos
        by (simp add: nmul_def is_zero_def is_infinite_def infinity_def not_less
            nmax_PosInfinity)
      from fl_cases [OF x1, of False] show ?thesis
      proof
        assume e: "fl False (rng / factor) = PosInfinity"
        have "ndiv PosInfinity (Num ival) = PosInfinity"
          "ndiv PosInfinity (Num 11000) = PosInfinity"
          using ipos by (simp_all add: ndiv_def is_zero_def is_infinite_def infinity_def)
        then have "?A = PosInfinity"
          unfolding A e using inf by (simp add: ngt_def nlt_def)
        then show ?thesis using r(1) by simp
      next
        assume "\<exists>y. fl False (rng / factor) = Num y \<and> rng / factor * ?c \<le> y \<and> 0 < y"
        then obtain y1 where y1: "fl False (rng / factor) = Num y1"
          "rng / factor * ?c \<le> y1" "0 < y1" by blast
        have "rng * ?c = rng / factor * ?c * factor" using f0 by simp
        also have "\<dots> \<le> y1 * factor" using y1(2) fpos by (intro mult_right_mono) simp_all
        finally have s1: "rng * ?c \<le> y1 * factor" .
        have q2: "ndiv (Num y1) (Num ival) = fl False (y1 / ival)"
          using y1(3) ipos by (simp add: ndiv_Num)
        have q4: "ndiv (Num y1) (Num 11000) = fl False (y1 / 11000)"
          using y1(3) by (simp add: ndiv_Num)
        show ?thesis
        proof (cases "ngt (fl False (y1 / ival)) (Num 11000)")
          case True
          have A': "?A = nmax (nmax (nmul (ceil_number (fl False (y1 / 11000))) (Num factor))
                                 (Num minInterval)) (Num 1)"
            unfolding A y1(1) q2 q4 using True by simp
          have xp: "0 \<le> rng / factor" using R fpos by simp
          have hp: "(0::real) \<le> 1 / 2" by simp
          have "(1::real) / 2 ^ 1022 * (1 / 2) \<le> rng / factor * ?c"
            by (rule mult_mono [OF x1 c(3) xp hp])
          then have "(1::real) / 2 ^ 1023 \<le> y1" using y1(2) by simp
          then have "(1 / 2 ^ 1023) / 11000 \<le> y1 / 11000" by (intro divide_right_mono) simp_all
          moreover have "(1::real) / 2 ^ 1074 \<le> (1 / 2 ^ 1023) / 11000" by simp
          ultimately have x4: "1 / 2 ^ 1074 \<le> y1 / 11000" by linarith
          from ceil_fl_pos [OF x4, of False] show ?thesis
          proof
            assume "ceil_number (fl False (y1 / 11000)) = PosInfinity"
            then have "?A = PosInfinity" unfolding A' using inf by simp
            then show ?thesis using r(1) by simp
          next
            assume "\<exists>k. ceil_number (fl False (y1 / 11000)) = Num k \<and> 1 \<le> k
                       \<and> y1 / 11000 * ?c \<le> k"
            then obtain k where k: "ceil_number (fl False (y1 / 11000)) = Num k" "1 \<le> k"
              "y1 / 11000 * ?c \<le> k" by blast
            have kpos: "0 < k" using k(2) by linarith
            have p: "nmul (Num k) (Num factor) = fl False (k * factor)"
              using kpos fpos by (simp add: nmul_Num)
            have "1 * 1 \<le> k * factor" using k(2) assms(2) by (intro mult_mono) simp_all
            moreover have "(1::real) / 2 ^ 1022 \<le> 1 * 1" by simp
            ultimately have x5: "1 / 2 ^ 1022 \<le> k * factor" by linarith
            from fl_cases [OF x5, of False] show ?thesis
            proof
              assume "fl False (k * factor) = PosInfinity"
              then have "?A = PosInfinity" unfolding A' k(1) p by (simp add: nmax_PosInfinity)
              then show ?thesis using r(1) by simp
            next
              assume "\<exists>y. fl False (k * factor) = Num y \<and> k * factor * ?c \<le> y \<and> 0 < y"
              then obtain y5 where y5: "fl False (k * factor) = Num y5"
                "k * factor * ?c \<le> y5" by blast
              have "nmax (nmax (Num y5) (Num minInterval)) (Num 1) = Num r"
                using r(1) unfolding A' k(1) p y5(1) .
              then have y5r: "y5 \<le> r" by (rule nmax_Num_ge)
              have s2: "y1 * ?c \<le> (y1 * ?c / 11000) * 11000" by simp
              have s3: "y1 * ?c / 11000 \<le> k" using k(3) by simp
              show ?thesis
                using c(1) fpos s1 s2 s3 y5(2) y5r by (rule chain_calibrated)
            qed
          qed
        next
          case False
          have A': "?A = nmax (nmax (nmul (Num ival) (Num factor)) (Num minInterval)) (Num 1)"
            unfolding A y1(1) q2 using False by simp
          have x2: "0 < y1 / ival" using y1(3) assms(1) by simp
          have "y1 / ival * ?c \<le> 11000" using x2 False by (rule fl_not_gt)
          then have s3: "y1 * ?c / ival \<le> 11000" by simp
          have s2: "y1 * ?c \<le> (y1 * ?c / ival) * ival" using ipos by simp
          have p: "nmul (Num ival) (Num factor) = fl False (ival * factor)"
            using assms(1) fpos by (simp add: nmul_Num)
          have "y1 * ?c \<le> 11000 * ival"
            using s3 assms(1) by (simp add: pos_divide_le_eq)
          then have "y1 * ?c * factor \<le> 11000 * ival * factor"
            using fpos by (intro mult_right_mono) simp_all
          moreover have "rng * ?c * ?c \<le> y1 * factor * ?c"
            using s1 c(1) by (intro mult_right_mono) simp_all
          ultimately have "rng * (?c * ?c) \<le> 11000 * (ival * factor)"
            by (simp add: mult.assoc mult.left_commute mult.commute)
          moreover have "11000 * (?c * ?c) < rng * (?c * ?c)"
            using R c(1) by (intro mult_strict_right_mono mult_pos_pos) simp_all
          ultimately have "?c * ?c < ival * factor" by linarith
          moreover have "(1/2) * (1/2) \<le> ?c * ?c" using c(3) by (intro mult_mono) simp_all
          moreover have "(1::real) / 2 ^ 1022 \<le> (1/2) * (1/2)" by simp
          ultimately have x3: "1 / 2 ^ 1022 \<le> ival * factor" by linarith
          from fl_cases [OF x3, of False] show ?thesis
          proof
            assume "fl False (ival * factor) = PosInfinity"
            then have "?A = PosInfinity" unfolding A' p by (simp add: nmax_PosInfinity)
            then show ?thesis using r(1) by simp
          next
            assume "\<exists>y. fl False (ival * factor) = Num y \<and> ival * factor * ?c \<le> y \<and> 0 < y"
            then obtain y3 where y3: "fl False (ival * factor) = Num y3"
              "ival * factor * ?c \<le> y3" by blast
            have "nmax (nmax (Num y3) (Num minInterval)) (Num 1) = Num r"
              using r(1) unfolding A' p y3(1) .
            then have y3r: "y3 \<le> r" by (rule nmax_Num_ge)
            show ?thesis
              using c(1) fpos assms(1) s1 s2 s3 y3(2) y3r by (rule chain_plain)
          qed
        qed
      qed
    qed
    have "rng / r \<le> 11000 / ?c ^ 3"
      using main rpos c(1) by (rule ceiling_bound_finish)
    then show ?thesis using r by blast
  qed
qed

text \<open>
  The theorem at interval 1, factor 2 and a range of a million seconds: the interval
  becomes 46 times 2.
\<close>

theorem adjustInterval_ceiling_witness:
  "(0::real) < 1 \<and> (1::real) \<le> 2 \<and> (2::real) \<le> 2 ^ 1024
   \<and> adjustInterval (Num 1) (Num 0) (Num 1000000) (Num 2) = Num 92
   \<and> (1000000 :: real) / 92 \<le> 11000 / (1 - 1 / 2 ^ 53) ^ 3"
proof -
  have h: "(0::real) < 1" "(1::real) \<le> 2" "(2::real) \<le> 2 ^ 1024"
    by simp_all
  have v: "adjustInterval (Num 1) (Num 0) (Num 1000000) (Num 2) = Num 92"
    by (simp add: adjustInterval_def number_eval)
  have "\<exists>r. adjustInterval (Num 1) (Num 0) (Num 1000000) (Num 2) = Num r
          \<and> 1 \<le> r \<and> 1000000 / r \<le> 11000 / (1 - 1 / 2 ^ 53) ^ 3"
    using adjustInterval_ceiling [OF h, of 0 1000000] unfolding v by simp
  then obtain r where r: "adjustInterval (Num 1) (Num 0) (Num 1000000) (Num 2) = Num r"
    "1000000 / r \<le> 11000 / (1 - 1 / 2 ^ 53) ^ 3"
    by blast
  have "r = 92" using r(1) v by simp
  then show ?thesis using h v r(2) by blast
qed

text \<open>
  Claim C10 as stated fails for an interval factor of zero: the range divided by zero
  is infinite, its ceiling times zero is \<open>NaN\<close>, and so is the maximum.
\<close>

theorem adjustInterval_zero_factor:
  "adjustInterval (Num 15) (Num 15) (Num 3600) (Num 0) = NaN
   \<and> \<not> nle (Num 1) (adjustInterval (Num 15) (Num 15) (Num 3600) (Num 0))"
  by (simp add: adjustInterval_def number_eval)

text \<open>
  Claim C10, amended.  For every interval and minimum interval other than \<open>NaN\<close>,
  every finite interval factor other than zero, and every range, \<open>adjustInterval\<close>
  returns a number that is at least 1 and at least the minimum interval.
  \<open>createQuery\<close> replaces a zero factor by 1, so for every target, request and time
  range the query that it builds has a step of at least 1, and the step that
  \<open>alignRange\<close> divides by is neither zero nor \<open>NaN\<close>.
\<close>

theorem createQuery_step_at_least_one:
  "(factor \<noteq> 0 \<and> ivl \<noteq> NaN \<and> minI \<noteq> NaN \<longrightarrow>
      nle (Num 1) (adjustInterval ivl minI rng (Num factor))
      \<and> nle minI (adjustInterval ivl minI rng (Num factor)))
   \<and> nle (Num 1) (q_step (createQuery h ds target options start end'))
   \<and> \<not> is_zero (q_step (createQuery h ds target options start end'))
   \<and> q_step (createQuery h ds target options start end') \<noteq> NaN
   \<and> q_start (createQuery h ds target options start end')
       = r_start (alignRange start end' (q_step (createQuery h ds target options start end')))
   \<and> q_end (createQuery h ds target options start end')
       = r_end (alignRange start end' (q_step (createQuery h ds target options start end')))"
  using adjustInterval_at_least(1) [of factor ivl minI rng]
    adjustInterval_at_least(2) [of factor ivl minI rng]
    createQuery_step_ge_one [of h ds target options start end']
    nle_one_not_zero [of "q_step (createQuery h ds target options start end')"]
    createQuery_fields(3,4) [of h ds target options start end']
  by blast

text \<open>
  The theorem on the sample target over a range of a million seconds: the interval of 15
  seconds is raised to 91.
\<close>

theorem createQuery_step_at_least_one_witness:
  "(1::real) \<noteq> 0 \<and> Num 15 \<noteq> NaN
   \<and> adjustInterval (Num 15) (Num 15) (Num 1000000) (Num 1) = Num 91
   \<and> nle (Num 15) (adjustInterval (Num 15) (Num 15) (Num 1000000) (Num 1))
   \<and> q_step (createQuery sampleHost sampleDatasource sampleTarget sampleRequest
               (Num 0) (Num 1000000)) = Num 91
   \<and> nle (Num 1) (q_step (createQuery sampleHost sampleDatasource sampleTarget sampleRequest
                             (Num 0) (Num 1000000)))"
proof -
  have z: "(1::real) \<noteq> 0" "Num 15 \<noteq> NaN" by simp_all
  have a: "adjustInterval (Num 15) (Num 15) (Num 1000000) (Num 1) = Num 91"
    by (simp add: adjustInterval_def number_eval)
  have c: "ceil_number (nsub (Num 1000000) (Num 0)) = Num 1000000"
    by (simp add: number_eval)
  have "q_step (createQuery sampleHost sampleDatasource sampleTarget sampleRequest
                  (Num 0) (Num 1000000))
          = (if \<not> nseq (Num 15) (adjustInterval (Num 15) (Num 15) (Num 1000000) (Num 1))
             then adjustInterval (Num 15) (Num 15) (Num 1000000) (Num 1) else Num 15)"
    unfolding createQuery_step c
    by (simp add: sampleHost_def sampleTarget_def sampleRequest_def sampleIntervalToSeconds_def
        Let_def)
  then have b: "q_step (createQuery sampleHost sampleDatasource sampleTarget sampleRequest
                          (Num 0) (Num 1000000)) = Num 91"
    unfolding a by (simp add: nseq_Num)
  show ?thesis
    using z a b
      createQuery_step_at_least_one [of 1 "Num 15" "Num 15" "Num 1000000" sampleHost
        sampleDatasource sampleTarget sampleRequest "Num 0" "Num 1000000"]
    by blast
qed

section \<open>Annotation events: properties\<close>







section \<open>Errors and cancellation: properties\<close>

lemma truthy_not_nullish: "truthy v \<Longrightarrow> \<not> nullish v"
  by (cases v) (simp_all add: nullish_def)

lemma cancelled_not_nullish: "truthy (getprop err k) \<Longrightarrow> \<not> nullish err"
  by (cases err) (simp_all add: nullish_def)

lemma collect_append:
  "collect h qs ts (xs @ ys) i acc =
     (case collect h qs ts xs i acc of
        Inl t \<Rightarrow> Inl t
      | Inr acc' \<Rightarrow> collect h qs ts ys (i + length xs) acc')"
  by (induction xs arbitrary: i acc) (simp_all split: sum.splits)

lemma sample_times:
  "getPrometheusTime sampleHost (range_from (opt_range sampleRequest)) False = Num 0"
  "getPrometheusTime sampleHost (range_to (opt_range sampleRequest)) True = Num 3600"
proof -
  have r: "range_from (opt_range sampleRequest) = DateValue 0"
    "range_to (opt_range sampleRequest) = DateValue 3600000"
    by (simp_all add: sampleRequest_def)
  have c: "ceil_number (ndiv (Num 0) (Num 1000)) = Num 0"
    "ceil_number (ndiv (Num 3600000) (Num 1000)) = Num 3600"
    by (simp_all add: number_eval)
  show "getPrometheusTime sampleHost (range_from (opt_range sampleRequest)) False = Num 0"
    unfolding r getPrometheusTime_def by (simp add: c)
  show "getPrometheusTime sampleHost (range_to (opt_range sampleRequest)) True = Num 3600"
    unfolding r getPrometheusTime_def by (simp add: c)
qed

lemma sample_prepareTargets:
  "prepareTargets sampleHost sampleDatasource sampleRequest (Num 0) (Num 3600)
     = ([createQuery sampleHost sampleDatasource sampleTarget sampleRequest (Num 0) (Num 3600),
         createQuery sampleHost sampleDatasource (sampleTarget\<lparr>refId := ''B'', instant := True\<rparr>)
           sampleRequest (Num 0) (Num 3600)],
        [sampleTarget, sampleTarget\<lparr>refId := ''B'', instant := True\<rparr>])"
proof -
  have t: "targets sampleRequest = [sampleTarget, sampleTarget\<lparr>refId := ''B'', instant := True\<rparr>]"
    by (simp add: sampleRequest_def)
  have a: "expr sampleTarget \<noteq> [] \<and> \<not> hide sampleTarget \<and> p_context sampleTarget = None"
    by (simp add: sampleTarget_def)
  show ?thesis
    unfolding prepareTargets_def t using a by simp
qed

lemma sample_step:
  assumes "interval t = None" and "intervalFactor t = None"
  shows "q_step (createQuery sampleHost sampleDatasource t sampleRequest (Num 0) (Num 3600))
           = Num 15"
proof -
  have c: "ceil_number (nsub (Num 3600) (Num 0)) = Num 3600"
    by (simp add: number_eval)
  have a: "adjustInterval (Num 15) (Num 15) (Num 3600) (Num 1) = Num 15"
    by (simp add: adjustInterval_def number_eval)
  have "q_step (createQuery sampleHost sampleDatasource t sampleRequest (Num 0) (Num 3600))
          = (if \<not> nseq (Num 15) (adjustInterval (Num 15) (Num 15) (Num 3600) (Num 1))
             then adjustInterval (Num 15) (Num 15) (Num 3600) (Num 1) else Num 15)"
    unfolding createQuery_step c using assms
    by (simp add: sampleHost_def sampleRequest_def sampleIntervalToSeconds_def Let_def)
  then show ?thesis unfolding a by simp
qed

lemma sample_range:
  assumes "interval t = None" and "intervalFactor t = None"
  shows "\<not> ngt (q_start (createQuery sampleHost sampleDatasource t sampleRequest
                          (Num 0) (Num 3600)))
               (q_end (createQuery sampleHost sampleDatasource t sampleRequest
                         (Num 0) (Num 3600)))"
proof -
  have "alignRange (Num 0) (Num 3600) (Num 15) = \<lparr>r_end = Num 3600, r_start = Num 0\<rparr>"
    by (simp add: alignRange_def number_eval)
  then show ?thesis
    unfolding createQuery_fields(3,4) sample_step [OF assms] by (simp add: ngt_Num)
qed

lemma sample_rejected:
  "catchErrors sampleHost q
     (datasourceRequest sampleHost (requestOptions sampleHost ds u d (queryOptions q)))
    = Resolved cancelledError"
proof -
  have "\<not> o_silent (requestOptions sampleHost ds u d (queryOptions q))"
    by (simp add: requestOptions_def queryOptions_def Let_def)
  then have "datasourceRequest sampleHost (requestOptions sampleHost ds u d (queryOptions q))
               = Inl cancelledError"
    by (simp add: sampleHost_def)
  then show ?thesis
    by (simp add: catchErrors_def handleErrors_def cancelledError_def nullish_def)
qed

lemma sample_query:
  "outcome (query sampleHost sampleDatasource sampleRequest False) = Inr (Resolved [])
   \<and> length (sent (query sampleHost sampleDatasource sampleRequest False)) = 2"
proof -
  let ?qa = "createQuery sampleHost sampleDatasource sampleTarget sampleRequest (Num 0) (Num 3600)"
  let ?qb = "createQuery sampleHost sampleDatasource (sampleTarget\<lparr>refId := ''B'', instant := True\<rparr>)
           sampleRequest (Num 0) (Num 3600)"
  have ia: "\<not> q_instant ?qa" and ib: "q_instant ?qb"
    by (simp_all add: createQuery_fields sampleTarget_def)
  have oa: "\<not> ngt (q_start ?qa) (q_end ?qa)"
    by (rule sample_range) (simp_all add: sampleTarget_def)
  have pa: "snd (performQuery sampleHost sampleDatasource (Num 3600) ?qa)
              = Inr (Resolved cancelledError)"
    "length (fst (performQuery sampleHost sampleDatasource (Num 3600) ?qa)) = 1"
    using ia oa
    by (simp_all add: performQuery_def performTimeSeriesQuery_def prom_request_def
        sample_rejected Let_def)
  have pb: "snd (performQuery sampleHost sampleDatasource (Num 3600) ?qb)
              = Inr (Resolved cancelledError)"
    "length (fst (performQuery sampleHost sampleDatasource (Num 3600) ?qb)) = 1"
    using ib
    by (simp_all add: performQuery_def performInstantQuery_def prom_request_def
        sample_rejected Let_def)
  have all: "snd (performAll sampleHost sampleDatasource (Num 3600) [?qa, ?qb])
               = Inr [Resolved cancelledError, Resolved cancelledError]"
    "length (fst (performAll sampleHost sampleDatasource (Num 3600) [?qa, ?qb])) = 2"
    using pa pb by (auto simp add: split: prod.splits sum.splits)
  obtain reqs where r: "performAll sampleHost sampleDatasource (Num 3600) [?qa, ?qb]
                          = (reqs, Inr [Resolved cancelledError, Resolved cancelledError])"
    and l: "length reqs = 2"
    using all by (cases "performAll sampleHost sampleDatasource (Num 3600) [?qa, ?qb]") simp
  have p: "allPromises [Resolved cancelledError, Resolved cancelledError]
             = Resolved [cancelledError, cancelledError]"
    by simp
  have k: "truthy (getprop cancelledError ''cancelled'')" "\<not> nullish cancelledError"
    by (simp_all add: cancelledError_def nullish_def)
  have "query sampleHost sampleDatasource sampleRequest False
          = \<lparr>sent = reqs, observed = [], outcome = Inr (Resolved [])\<rparr>"
    unfolding query_def sample_times sample_prepareTargets Let_def prod.case r p
    by (simp add: k)
  then show ?thesis using l by simp
qed

text \<open>
  Claim C4.  For an error whose \<open>cancelled\<close> field is truthy, \<open>handleErrors\<close>
  returns the error itself and throws nothing, so the promise of the request resolves
  with it; and in the response list of \<open>query\<close> such a response is skipped: the result
  is that of the responses before it and after it, each at its own index.
\<close>

theorem cancelled_is_not_an_error:
  assumes "truthy (getprop err ''cancelled'')"
  shows "handleErrors h err target = Inr err
       \<and> catchErrors h target (Inl err) = Resolved err
       \<and> collect h queries activeTargets (before @ err # after) 0 []
           = (case collect h queries activeTargets before 0 [] of
                Inl t \<Rightarrow> Inl t
              | Inr result \<Rightarrow> collect h queries activeTargets after (Suc (length before)) result)"
proof -
  have n: "\<not> nullish err" using assms by (rule cancelled_not_nullish)
  have a: "handleErrors h err target = Inr err"
    using assms n by (simp add: handleErrors_def)
  then have b: "catchErrors h target (Inl err) = Resolved err"
    by (simp add: catchErrors_def)
  have "collect h queries activeTargets (err # after) i result
          = collect h queries activeTargets after (Suc i) result" for i result
    using assms n by simp
  then have c: "collect h queries activeTargets (before @ err # after) 0 []
           = (case collect h queries activeTargets before 0 [] of
                Inl t \<Rightarrow> Inl t
              | Inr result \<Rightarrow> collect h queries activeTargets after (Suc (length before)) result)"
    by (simp add: collect_append cong: sum.case_cong)
  show ?thesis using a b c by blast
qed

text \<open>
  The theorem on an error that is cancelled: between two responses that carry data it
  adds nothing to the result.  And a run of \<open>query\<close> on the sample request, of which
  the host cancels both requests: two requests are sent, and the promise resolves with
  no series.
\<close>

theorem cancelled_is_not_an_error_witness:
  "truthy (getprop cancelledError ''cancelled'')
   \<and> handleErrors sampleHost cancelledError sampleQuery = Inr cancelledError
   \<and> collect sampleHost [sampleQuery, sampleQuery, sampleQuery]
        [sampleTarget, sampleTarget, sampleTarget]
        [JObject [(''data'', JString ''first'')], cancelledError,
         JObject [(''data'', JString ''third'')]] 0 []
       = Inr [JObject [(''data'', JString ''first'')], JObject [(''data'', JString ''third'')]]
   \<and> outcome (query sampleHost sampleDatasource sampleRequest False) = Inr (Resolved [])
   \<and> length (sent (query sampleHost sampleDatasource sampleRequest False)) = 2"
proof -
  have a: "truthy (getprop cancelledError ''cancelled'')"
    by (simp add: cancelledError_def)
  have t: "transform sampleHost = (\<lambda>response options. [response])"
    by (simp add: sampleHost_def)
  have c: "collect sampleHost [sampleQuery, sampleQuery, sampleQuery]
        [sampleTarget, sampleTarget, sampleTarget]
        ([JObject [(''data'', JString ''first'')]] @ cancelledError #
         [JObject [(''data'', JString ''third'')]]) 0 []
       = Inr [JObject [(''data'', JString ''first'')], JObject [(''data'', JString ''third'')]]"
    using cancelled_is_not_an_error [OF a, of sampleHost sampleQuery
        "[sampleQuery, sampleQuery, sampleQuery]" "[sampleTarget, sampleTarget, sampleTarget]"
        "[JObject [(''data'', JString ''first'')]]" "[JObject [(''data'', JString ''third'')]]"]
    by (simp add: nullish_def processResult_def t)
  show ?thesis
    using a c sample_query
      cancelled_is_not_an_error [OF a, of sampleHost sampleQuery "[]" "[]" "[]" "[]"]
    by simp
qed

text \<open>
  Claim C5.  For every error of the HTTP layer that is not cancelled, \<open>handleErrors\<close>
  throws one error object; it has a message, the status and the status text of the
  original error, and the \<open>refId\<close> of the query the request was made for.
\<close>

theorem handleErrors_uniform_error:
  assumes "\<not> nullish err" and "\<not> truthy (getprop err ''cancelled'')"
  shows "(\<exists>e. handleErrors h err target = Inl (QueryError e)
           \<and> \<not> nullish (e_message e)
           \<and> e_status e = getprop err ''status''
           \<and> e_statusText e = getprop err ''statusText''
           \<and> e_refId e = q_refId target)
       \<and> q_refId (createQuery h ds t options start end') = refId t"
proof -
  let ?d = "getprop err ''data''"
  let ?m = "if truthy ?d
            then (case ?d of
                    JString s \<Rightarrow> ?d
                  | _ \<Rightarrow> if truthy (getprop ?d ''error'')
                         then JString (safeStringifyValue h (getprop ?d ''error''))
                         else JString unknownError)
            else if truthy (getprop err ''message'') then getprop err ''message''
            else (case err of JString s \<Rightarrow> err | _ \<Rightarrow> JString unknownError)"
  have eq: "handleErrors h err target
          = Inl (QueryError \<lparr>e_message = ?m, e_refId = q_refId target,
                              e_status = getprop err ''status'',
                              e_statusText = getprop err ''statusText''\<rparr>)"
    using assms by (simp add: handleErrors_def Let_def)
  have "\<not> nullish ?m"
  proof (cases "truthy ?d")
    case True
    then show ?thesis by (cases ?d) (simp_all add: nullish_def)
  next
    case False
    show ?thesis
    proof (cases "truthy (getprop err ''message'')")
      case True
      then show ?thesis using False truthy_not_nullish by simp
    next
      case m: False
      show ?thesis using False m by (cases err) (simp_all add: nullish_def)
    qed
  qed
  then show ?thesis
    using eq createQuery_fields(2) [of h ds t options start end'] by simp
qed

text \<open>The theorem on a response with status 400 whose data holds the error text.\<close>

theorem handleErrors_uniform_error_witness:
  "\<not> nullish (JObject [(''status'', jsnum 400), (''data'', JObject [(''error'', JString ''bad_data'')])])
   \<and> \<not> truthy (getprop (JObject [(''status'', jsnum 400),
                                  (''data'', JObject [(''error'', JString ''bad_data'')])]) ''cancelled'')
   \<and> handleErrors sampleHost
        (JObject [(''status'', jsnum 400), (''data'', JObject [(''error'', JString ''bad_data'')])])
        sampleQuery
       = Inl (QueryError \<lparr>e_message = JString ''bad_data'', e_refId = ''A'',
                           e_status = jsnum 400, e_statusText = JUndefined\<rparr>)
   \<and> q_refId (createQuery sampleHost sampleDatasource sampleTarget sampleRequest (Num 0) (Num 3600)) = ''A''"
proof -
  let ?err = "JObject [(''status'', jsnum 400), (''data'', JObject [(''error'', JString ''bad_data'')])]"
  have a: "\<not> nullish ?err" by (simp add: nullish_def)
  have b: "\<not> truthy (getprop ?err ''cancelled'')" by simp
  have c: "handleErrors sampleHost ?err sampleQuery
       = Inl (QueryError \<lparr>e_message = JString ''bad_data'', e_refId = ''A'',
                           e_status = jsnum 400, e_statusText = JUndefined\<rparr>)"
    by (simp add: handleErrors_def nullish_def sampleHost_def sampleToString_def
        sampleQuery_def Let_def)
  have d: "refId sampleTarget = ''A''" by (simp add: sampleTarget_def)
  show ?thesis
    using a b c d
      handleErrors_uniform_error [OF a b, of sampleHost sampleQuery sampleDatasource
        sampleTarget sampleRequest "Num 0" "Num 3600"]
    by simp
qed

text \<open>
  Claim C6.  For every error that is not cancelled, has no \<open>data\<close> and no
  \<open>message\<close> and is not a string, the error object that \<open>handleErrors\<close> throws has
  the generic message.
\<close>

theorem handleErrors_unknown_error:
  assumes "\<not> nullish err" and "\<not> truthy (getprop err ''cancelled'')"
    and "getprop err ''data'' = JUndefined" and "getprop err ''message'' = JUndefined"
    and "\<forall>s. err \<noteq> JString s"
  shows "\<exists>e. handleErrors h err target = Inl (QueryError e)
           \<and> e_message e =
               JString ''Unknown error during query transaction. Please check JS console logs.''"
  using assms by (cases err) (simp_all add: handleErrors_def unknownError_def Let_def)

text \<open>The theorem on an error object that has a status only.\<close>

theorem handleErrors_unknown_error_witness:
  "\<not> nullish (JObject [(''status'', jsnum 502)])
   \<and> \<not> truthy (getprop (JObject [(''status'', jsnum 502)]) ''cancelled'')
   \<and> getprop (JObject [(''status'', jsnum 502)]) ''data'' = JUndefined
   \<and> getprop (JObject [(''status'', jsnum 502)]) ''message'' = JUndefined
   \<and> (\<forall>s. JObject [(''status'', jsnum 502)] \<noteq> JString s)
   \<and> (\<exists>e. handleErrors sampleHost (JObject [(''status'', jsnum 502)]) sampleQuery
             = Inl (QueryError e)
           \<and> e_message e =
               JString ''Unknown error during query transaction. Please check JS console logs.'')"
proof -
  let ?err = "JObject [(''status'', jsnum 502)]"
  have a: "\<not> nullish ?err" by (simp add: nullish_def)
  have b: "\<not> truthy (getprop ?err ''cancelled'')" by simp
  have c: "getprop ?err ''data'' = JUndefined" by simp
  have d: "getprop ?err ''message'' = JUndefined" by simp
  have e: "\<forall>s. ?err \<noteq> JString s" by simp
  show ?thesis
    using a b c d e handleErrors_unknown_error [OF a b c d e, of sampleHost sampleQuery]
    by blast
qed

section \<open>Requests: properties\<close>

text \<open>
  Claim C7.  \<open>performTimeSeriesQuery\<close> sends one request to \<open>/api/v1/query_range\<close>
  (none when the start is after the end, where it throws).  Its parameters are
  \<open>query\<close>, \<open>start\<close>, \<open>end\<close> and \<open>step\<close>, and \<open>timeout\<close> exactly when the
  datasource's \<open>queryTimeout\<close> is set; \<open>_request\<close> puts these parameters and no
  other into the URL of a GET and into the data of any other request.
\<close>

theorem range_query_parameters:
  "fst (performTimeSeriesQuery h ds q start end') =
      (if ngt start end' then []
       else [requestOptions h ds ''/api/v1/query_range''
               (Some (timeSeriesData ds q start end')) (queryOptions q)])
   \<and> timeSeriesData ds q start end'
       = [(''query'', JString (q_expr q)), (''start'', JNumber start), (''end'', JNumber end'),
          (''step'', JNumber (q_step q))]
         @ (if truthy (queryTimeout ds) then [(''timeout'', queryTimeout ds)] else [])
   \<and> (''timeout'' \<in> fst ` set (timeSeriesData ds q start end') \<longleftrightarrow> truthy (queryTimeout ds))
   \<and> o_url (requestOptions h ds path (Some params) (queryOptions q))
       = (if httpMethod ds = ''GET'' \<and> params \<noteq> []
          then ds_url ds @ path @ ''?'' @
               join ''&'' (map (\<lambda>(k, v). encodeURIComponent h (JString k) @ ''='' @
                                          encodeURIComponent h v) params)
          else ds_url ds @ path)
   \<and> o_data (requestOptions h ds path (Some params) (queryOptions q))
       = (if httpMethod ds = ''GET'' then None else Some params)"
proof -
  have a: "fst (performTimeSeriesQuery h ds q start end') =
      (if ngt start end' then []
       else [requestOptions h ds ''/api/v1/query_range''
               (Some (timeSeriesData ds q start end')) (queryOptions q)])"
    by (simp add: performTimeSeriesQuery_def prom_request_def Let_def)
  have b: "(''timeout'' \<in> fst ` set (timeSeriesData ds q start end') \<longleftrightarrow> truthy (queryTimeout ds))"
    by (auto simp add: timeSeriesData_def)
  have c: "o_url (requestOptions h ds path (Some params) (queryOptions q))
       = (if httpMethod ds = ''GET'' \<and> params \<noteq> []
          then ds_url ds @ path @ ''?'' @
               join ''&'' (map (\<lambda>(k, v). encodeURIComponent h (JString k) @ ''='' @
                                          encodeURIComponent h v) params)
          else ds_url ds @ path)"
    by (simp add: requestOptions_def queryOptions_def Let_def)
  have d: "o_data (requestOptions h ds path (Some params) (queryOptions q))
       = (if httpMethod ds = ''GET'' then None else Some params)"
    by (simp add: requestOptions_def queryOptions_def Let_def)
  show ?thesis using a b c d by (simp add: timeSeriesData_def)
qed

text \<open>The request of the sample query, with and without a query timeout.\<close>

theorem range_query_parameters_witness:
  "map o_url (fst (performTimeSeriesQuery sampleHost sampleDatasource sampleQuery (Num 0) (Num 3600)))
     = [''/api/v1/query_range?query=up&start=0&end=3600&step=15&timeout=60s'']
   \<and> map fst (timeSeriesData (sampleDatasource\<lparr>queryTimeout := JUndefined\<rparr>) sampleQuery (Num 0) (Num 3600))
     = [''query'', ''start'', ''end'', ''step'']"
proof -
  have t: "timeSeriesData sampleDatasource sampleQuery (Num 0) (Num 3600)
             = [(''query'', JString ''up''), (''start'', JNumber (Num 0)), (''end'', JNumber (Num 3600)),
                (''step'', JNumber (Num 15)), (''timeout'', JString ''60s'')]"
    by (simp add: timeSeriesData_def sampleDatasource_def sampleQuery_def)
  have g: "httpMethod sampleDatasource = ''GET''" "ds_url sampleDatasource = []"
    by (simp_all add: sampleDatasource_def)
  have e: "encodeURIComponent sampleHost = sampleToString" by (simp add: sampleHost_def)
  note T = range_query_parameters [of sampleHost sampleDatasource sampleQuery "Num 0" "Num 3600"
        "''/api/v1/query_range''" "timeSeriesData sampleDatasource sampleQuery (Num 0) (Num 3600)"]
  from T have f1: "fst (performTimeSeriesQuery sampleHost sampleDatasource sampleQuery (Num 0) (Num 3600))
      = [requestOptions sampleHost sampleDatasource ''/api/v1/query_range''
               (Some (timeSeriesData sampleDatasource sampleQuery (Num 0) (Num 3600)))
               (queryOptions sampleQuery)]"
    by (simp add: ngt_Num)
  from T have f2: "o_url (requestOptions sampleHost sampleDatasource ''/api/v1/query_range''
               (Some (timeSeriesData sampleDatasource sampleQuery (Num 0) (Num 3600)))
               (queryOptions sampleQuery))
       = (if httpMethod sampleDatasource = ''GET''
             \<and> timeSeriesData sampleDatasource sampleQuery (Num 0) (Num 3600) \<noteq> []
          then ds_url sampleDatasource @ ''/api/v1/query_range'' @ ''?'' @
               join ''&'' (map (\<lambda>(k, v). encodeURIComponent sampleHost (JString k) @ ''='' @
                                          encodeURIComponent sampleHost v)
                             (timeSeriesData sampleDatasource sampleQuery (Num 0) (Num 3600)))
          else ds_url sampleDatasource @ ''/api/v1/query_range'')"
    by blast
  have u: "map o_url (fst (performTimeSeriesQuery sampleHost sampleDatasource sampleQuery (Num 0) (Num 3600)))
     = [''/api/v1/query_range?query=up&start=0&end=3600&step=15&timeout=60s'']"
    unfolding f1 list.map f2
    by (simp add: t g e sampleToString_def)
  have k: "map fst (timeSeriesData (sampleDatasource\<lparr>queryTimeout := JUndefined\<rparr>) sampleQuery (Num 0) (Num 3600))
     = [''query'', ''start'', ''end'', ''step'']"
    by (simp add: timeSeriesData_def)
  show ?thesis using u k by blast
qed

lemma validCache_iff:
  "validCache ds True now = None \<longleftrightarrow> \<not> (\<exists>c. nameCache ds = Some c \<and> now < c_expire c)"
  by (simp add: validCache_def split: option.splits)

lemma validCache_Some:
  "nameCache ds = Some c \<Longrightarrow> now < c_expire c \<Longrightarrow> validCache ds True now = Some c"
  by (simp add: validCache_def)

lemma suggest_hit:
  "validCache ds cache now = Some c \<Longrightarrow>
   performSuggestQuery h ds q cache now now' = (ds, [], whenValue (filterNames (c_data c) q))"
  by (simp add: performSuggestQuery_def)

lemma suggest_miss_sent:
  "validCache ds cache now = None \<Longrightarrow>
   fst (snd (performSuggestQuery h ds q cache now now'))
     = [fst (metadataRequest h ds ''/api/v1/label/__name__/values'')]"
  by (simp add: performSuggestQuery_def Let_def split: prod.splits sum.splits)

lemma suggest_miss_store:
  "validCache ds cache now = None \<Longrightarrow>
   snd (metadataRequest h ds ''/api/v1/label/__name__/values'') = Inr result \<Longrightarrow>
   \<not> nullish result \<Longrightarrow> \<not> nullish (getprop result ''data'') \<Longrightarrow>
   nameCache (fst (performSuggestQuery h ds q cache now now'))
     = Some \<lparr>c_data = getprop (getprop result ''data'') ''data'', c_expire = now' + 60000\<rparr>"
  by (cases "metadataRequest h ds ''/api/v1/label/__name__/values''")
     (simp add: performSuggestQuery_def Let_def)

lemma metadataRequest_options:
  "o_method (fst (metadataRequest h ds url)) = ''GET''"
  "o_url (fst (metadataRequest h ds url)) = ds_url ds @ url"
  "o_silent (fst (metadataRequest h ds url))"
  "snd (metadataRequest h ds url) = datasourceRequest h (fst (metadataRequest h ds url))"
  by (simp_all add: metadataRequest_def prom_request_def requestOptions_def Let_def)

text \<open>
  Claim C8.  With \<open>cache\<close> set, \<open>performSuggestQuery\<close> sends no request exactly when
  the datasource has a cache whose expiry is after the time of the call, and then it
  answers from that cache and leaves it as it is (what \<open>_.filter\<close> throws on the
  cached names is thrown by the call).  Otherwise it sends one GET for the
  metric names, and when the response arrives it stores the names with an expiry of
  60000 milliseconds after the time of the arrival.
\<close>

theorem suggest_cache_expiry:
  "(fst (snd (performSuggestQuery h ds q True now now')) = []
      \<longleftrightarrow> (\<exists>c. nameCache ds = Some c \<and> now < c_expire c))
   \<and> (\<forall>c. nameCache ds = Some c \<and> now < c_expire c \<longrightarrow>
         performSuggestQuery h ds q True now now' = (ds, [], whenValue (filterNames (c_data c) q)))
   \<and> (\<not> (\<exists>c. nameCache ds = Some c \<and> now < c_expire c) \<longrightarrow>
         fst (snd (performSuggestQuery h ds q True now now'))
           = [fst (metadataRequest h ds ''/api/v1/label/__name__/values'')]
         \<and> o_method (fst (metadataRequest h ds ''/api/v1/label/__name__/values'')) = ''GET''
         \<and> o_url (fst (metadataRequest h ds ''/api/v1/label/__name__/values''))
             = ds_url ds @ ''/api/v1/label/__name__/values''
         \<and> (\<forall>result. snd (metadataRequest h ds ''/api/v1/label/__name__/values'') = Inr result
                \<and> \<not> nullish result \<and> \<not> nullish (getprop result ''data'') \<longrightarrow>
              nameCache (fst (performSuggestQuery h ds q True now now'))
                = Some \<lparr>c_data = getprop (getprop result ''data'') ''data'',
                         c_expire = now' + 60 * 1000\<rparr>))"
proof -
  let ?url = "''/api/v1/label/__name__/values''"
  have hit: "performSuggestQuery h ds q True now now' = (ds, [], whenValue (filterNames (c_data c) q))"
    if "nameCache ds = Some c" "now < c_expire c" for c
    using that by (simp add: suggest_hit validCache_Some)
  have miss: "fst (snd (performSuggestQuery h ds q True now now')) = [fst (metadataRequest h ds ?url)]"
    if "\<not> (\<exists>c. nameCache ds = Some c \<and> now < c_expire c)"
    using that by (simp add: suggest_miss_sent validCache_iff)
  have store: "nameCache (fst (performSuggestQuery h ds q True now now'))
                = Some \<lparr>c_data = getprop (getprop result ''data'') ''data'',
                         c_expire = now' + 60 * 1000\<rparr>"
    if "\<not> (\<exists>c. nameCache ds = Some c \<and> now < c_expire c)"
      "snd (metadataRequest h ds ?url) = Inr result"
      "\<not> nullish result" "\<not> nullish (getprop result ''data'')" for result
    using that suggest_miss_store [of ds True now h result q now']
    by (simp add: validCache_iff)
  have iff: "fst (snd (performSuggestQuery h ds q True now now')) = []
      \<longleftrightarrow> (\<exists>c. nameCache ds = Some c \<and> now < c_expire c)"
  proof
    assume e: "fst (snd (performSuggestQuery h ds q True now now')) = []"
    show "\<exists>c. nameCache ds = Some c \<and> now < c_expire c"
    proof (rule ccontr)
      assume "\<not> (\<exists>c. nameCache ds = Some c \<and> now < c_expire c)"
      then show False using miss e by simp
    qed
  next
    assume "\<exists>c. nameCache ds = Some c \<and> now < c_expire c"
    then show "fst (snd (performSuggestQuery h ds q True now now')) = []"
      using hit by auto
  qed
  show ?thesis
    using iff hit miss store metadataRequest_options(1,2) [of h ds ?url] by blast
qed

text \<open>
  The theorem on the sample datasource.  It has no cache: a call at time 1000 sends the
  request, and the names that arrive at time 1200 are stored to expire at 61200.  A call
  at time 2000 on the datasource with that cache sends nothing and answers the names.
\<close>

theorem suggest_cache_expiry_witness:
  "nameCache sampleDatasource = None
   \<and> length (fst (snd (performSuggestQuery sampleHost sampleDatasource ''up'' True 1000 1200))) = 1
   \<and> nameCache (fst (performSuggestQuery sampleHost sampleDatasource ''up'' True 1000 1200))
       = Some \<lparr>c_data = JArray [JString ''up'', JString ''node_load1''], c_expire = 61200\<rparr>
   \<and> snd (performSuggestQuery sampleHost
             (sampleDatasource\<lparr>nameCache :=
                Some \<lparr>c_data = JArray [JString ''up'', JString ''node_load1''],
                      c_expire = 61200\<rparr>\<rparr>) ''up'' True 2000 2100)
       = ([], Inr (Resolved [JString ''up'', JString ''node_load1'']))"
proof -
  let ?url = "''/api/v1/label/__name__/values''"
  let ?c = "\<lparr>c_data = JArray [JString ''up'', JString ''node_load1''], c_expire = 61200\<rparr>"
  let ?ds = "sampleDatasource\<lparr>nameCache := Some ?c\<rparr>"
  have n: "nameCache sampleDatasource = None" by (simp add: sampleDatasource_def)
  then have no: "\<not> (\<exists>c. nameCache sampleDatasource = Some c \<and> 1000 < c_expire c)" by simp
  have r: "snd (metadataRequest sampleHost sampleDatasource ?url) = Inr labelValues"
    unfolding metadataRequest_options(4)
    using metadataRequest_options(3) [of sampleHost sampleDatasource ?url]
    by (simp add: sampleHost_def)
  have l: "\<not> nullish labelValues" "\<not> nullish (getprop labelValues ''data'')"
    "getprop (getprop labelValues ''data'') ''data'' = JArray [JString ''up'', JString ''node_load1'']"
    by (simp_all add: labelValues_def nullish_def)
  note T = suggest_cache_expiry [of sampleHost sampleDatasource "''up''" 1000 1200]
  from T no have a: "length (fst (snd (performSuggestQuery sampleHost sampleDatasource ''up'' True 1000 1200))) = 1"
    by simp
  from T no r l have b: "nameCache (fst (performSuggestQuery sampleHost sampleDatasource ''up'' True 1000 1200))
       = Some ?c"
    by simp
  have f: "filterNames (JArray [JString ''up'', JString ''node_load1'']) ''up''
             = Inr [JString ''up'', JString ''node_load1'']"
    by (simp add: filterNames_def indexOf_def)
  have "nameCache ?ds = Some ?c \<and> 2000 < c_expire ?c" by simp
  then have "performSuggestQuery sampleHost ?ds ''up'' True 2000 2100
               = (?ds, [], whenValue (filterNames (c_data ?c) ''up''))"
    using suggest_cache_expiry [of sampleHost ?ds "''up''" 2000 2100] by blast
  then have c: "snd (performSuggestQuery sampleHost ?ds ''up'' True 2000 2100)
               = ([], Inr (Resolved [JString ''up'', JString ''node_load1'']))"
    by (simp add: f whenValue_def)
  show ?thesis using n a b c by blast
qed

lemma prepareTargets_loop_skip:
  assumes "\<forall>t \<in> set ts. expr t = [] \<or> hide t"
  shows "prepareTargets_loop h ds options start end' ts acc = acc"
  using assms
proof (induction ts)
  case Nil
  show ?case by simp
next
  case (Cons t ts)
  obtain queries activeTargets where acc: "acc = (queries, activeTargets)" by (cases acc)
  show ?case using Cons by (simp add: acc)
qed

text \<open>
  Claim C9.  When every target of the request has an empty expression or is hidden,
  \<open>query\<close> sends no request, calls no observer, and resolves with no data.
\<close>

theorem query_without_targets:
  assumes "\<forall>t \<in> set (targets options). expr t = [] \<or> hide t"
  shows "query h ds options observer = \<lparr>sent = [], observed = [], outcome = Inr (Resolved [])\<rparr>"
proof -
  have "prepareTargets h ds options start end' = ([], [])" for start end'
    unfolding prepareTargets_def using assms by (rule prepareTargets_loop_skip)
  then show ?thesis by (simp add: query_def Let_def)
qed

text \<open>The theorem on a request with one hidden target and one without expression.\<close>

theorem query_without_targets_witness:
  "hide (sampleTarget\<lparr>hide := True\<rparr>)
   \<and> expr (sampleTarget\<lparr>expr := []\<rparr>) = []
   \<and> query sampleHost sampleDatasource
        (sampleRequest\<lparr>targets := [sampleTarget\<lparr>hide := True\<rparr>, sampleTarget\<lparr>expr := []\<rparr>]\<rparr>)
        True
       = \<lparr>sent = [], observed = [], outcome = Inr (Resolved [])\<rparr>"
proof -
  let ?options = "sampleRequest\<lparr>targets := [sampleTarget\<lparr>hide := True\<rparr>, sampleTarget\<lparr>expr := []\<rparr>]\<rparr>"
  have a: "\<forall>t \<in> set (targets ?options). expr t = [] \<or> hide t" by simp
  show ?thesis
    using query_without_targets [OF a, of sampleHost sampleDatasource True] by simp
qed

end
